theory Spec2Isabelle
  imports
    Complex_Main
    "HOL-Library.Char_ord"
    "HOL-Library.List_Lexorder"
    "HOL-Library.Log_Nat"
    "HOL-Library.Product_Lexorder"
begin

section \<open>The accounts-payable allocation engine of AP\_Calc.py and the period loop of main.py\<close>

text \<open>
  The development embeds \<^verbatim>\<open>filter_and_recommend\<close> (AP\_Calc.py, lines 75-186) and
  the loop over budget periods of main.py (lines 77-100).

  Conventions of the embedding.
  \<^item> A data frame is the list of its rows, in index order.
  \<^item> A cell that the code passes through \<^verbatim>\<open>pd.to_datetime(..., errors="coerce")\<close> or
    \<^verbatim>\<open>pd.to_numeric(..., errors="coerce")\<close> is represented by what the coercion
    yields: \<open>Some v\<close> for a value, \<open>None\<close> for NaT/NaN (the cell failed to parse or
    was empty). The parsers themselves are library code and are not modelled.
  \<^item> A timestamp is an integer number of nanoseconds since 1970-01-01, as pandas
    stores it.
  \<^item> Amounts and budgets are doubles in the code. A double is represented by the
    real number it denotes, and every addition and subtraction of doubles that the
    code performs is the exact result rounded to the nearest double (53 significant
    bits, ties to even). Infinities are not represented: the model is about runs in
    which no amount, budget or running total leaves the range of the doubles. NaN
    is kept where the code can meet it (a vendor budget that does not parse) as
    \<open>None\<close>.
  \<^item> Strings are lists of characters with code points below 256.
\<close>

subsection \<open>Data\<close>

type_synonym timestamp = int

definition day :: "int \<Rightarrow> timestamp" where
  \<comment> \<open>midnight of the n-th day after 1970-01-01\<close>
  "day n = n * 86400000000000"

text \<open>A row of the ledger, with the columns of \<^verbatim>\<open>extract_data_to_dataframe\<close>.\<close>

record bill =
  Aging_Category :: string
  Date :: "timestamp option"
  Transaction_Type :: string
  Doc_Num :: string
  Vendor :: string
  Due_Date :: "timestamp option"
  Past_Due :: "real option"
  Amount :: "real option"
  Open_Balance :: string

text \<open>
  The Vendors sheet. \<^verbatim>\<open>filtered_df.get("priority", 0)\<close> asks whether the merged frame
  has a column \<^verbatim>\<open>priority\<close>, so the two shapes of the sheet are kept apart. A
  priority cell may be empty (\<open>None\<close>).
\<close>

datatype vendor_table =
    No_Priority_Column "string list"
  | Priority_Column "(string \<times> int option) list"

text \<open>A row of \<^verbatim>\<open>filtered_df\<close> after the merge: the bill, its numeric amount (present
  after \<^verbatim>\<open>dropna\<close>), the urgency flag and the priority cell.\<close>

record candidate =
  bill :: bill
  amount :: real
  Is_Past_Due_45 :: bool
  priority :: "int option"

text \<open>An element of \<^verbatim>\<open>recommended\<close>: the row and the three added keys.\<close>

record recommendation =
  invoice :: candidate
  Payment_Amount :: real
  CumulativeVendor :: real
  Cumulative :: real

subsection \<open>Vendor-name normalisation: \<^verbatim>\<open>.lower().strip()\<close>\<close>

definition lower_char :: "char \<Rightarrow> char" where
  "lower_char c =
     (let n = (of_char c :: nat)
      in if (65 \<le> n \<and> n \<le> 90) \<or> (192 \<le> n \<and> n \<le> 214) \<or> (216 \<le> n \<and> n \<le> 222)
         then char_of (n + 32) else c)"

definition lower :: "string \<Rightarrow> string" where
  "lower s = map lower_char s"

definition isspace :: "char \<Rightarrow> bool" where
  "isspace c =
     (let n = (of_char c :: nat)
      in (9 \<le> n \<and> n \<le> 13) \<or> (28 \<le> n \<and> n \<le> 32) \<or> n = 133 \<or> n = 160)"

definition strip :: "string \<Rightarrow> string" where
  "strip s = rev (dropWhile isspace (rev (dropWhile isspace s)))"

definition normalize :: "string \<Rightarrow> string" where
  "normalize s = strip (lower s)"

subsection \<open>Preprocessing (AP\_Calc.py lines 83-118)\<close>

definition normalize_exclusions :: "string list \<Rightarrow> string list" where
  \<comment> \<open>line 84\<close>
  "normalize_exclusions exclusions = map normalize exclusions"

definition normalize_Vendor :: "bill list \<Rightarrow> bill list" where
  \<comment> \<open>line 85; the assignment is to the caller's frame\<close>
  "normalize_Vendor df = map (\<lambda>r. r\<lparr>Vendor := normalize (Vendor r)\<rparr>) df"

definition normalize_vendor_table :: "vendor_table \<Rightarrow> vendor_table" where
  \<comment> \<open>line 106; the assignment is to the caller's frame\<close>
  "normalize_vendor_table vt =
     (case vt of
        No_Priority_Column vs \<Rightarrow> No_Priority_Column (map normalize vs)
      | Priority_Column rows \<Rightarrow> Priority_Column (map (\<lambda>(v, p). (normalize v, p)) rows))"

definition drop_excluded :: "string list \<Rightarrow> bill list \<Rightarrow> bill list" where
  \<comment> \<open>line 89\<close>
  "drop_excluded exclusions df = filter (\<lambda>r. Vendor r \<notin> set exclusions) df"

definition keep_bills :: "bill list \<Rightarrow> bill list" where
  \<comment> \<open>line 93\<close>
  "keep_bills df = filter (\<lambda>r. Transaction_Type r = ''Bill'') df"

definition dropna_Amount :: "bill list \<Rightarrow> (bill \<times> real) list" where
  \<comment> \<open>line 98; from here on a row carries its numeric amount\<close>
  "dropna_Amount df = List.map_filter (\<lambda>r. map_option (Pair r) (Amount r)) df"

definition cutoff :: timestamp where
  \<comment> \<open>\<^verbatim>\<open>pd.Timestamp("2024-01-01")\<close>\<close>
  "cutoff = day 19723"

definition after_cutoff :: "(bill \<times> real) list \<Rightarrow> (bill \<times> real) list" where
  \<comment> \<open>line 101; a comparison with NaT is false\<close>
  "after_cutoff df =
     filter (\<lambda>(r, a). case Date r of None \<Rightarrow> False | Some d \<Rightarrow> cutoff < d) df"

definition past_due_45 :: "bill \<Rightarrow> bool" where
  \<comment> \<open>line 103; a comparison with NaN is false\<close>
  "past_due_45 r = (case Past_Due r of None \<Rightarrow> False | Some p \<Rightarrow> 45 \<le> p)"

definition merge_row :: "vendor_table \<Rightarrow> bill \<times> real \<Rightarrow> candidate list" where
  \<comment> \<open>line 107, a left join: one row per matching row of the table, in the table's
      order, and one row with an empty priority when nothing matches\<close>
  "merge_row vt = (\<lambda>(r, a).
     (let ms = (case vt of
                  No_Priority_Column vs \<Rightarrow> map (\<lambda>v. None) (filter (\<lambda>v. v = Vendor r) vs)
                | Priority_Column rows \<Rightarrow> map snd (filter (\<lambda>(v, p). v = Vendor r) rows))
      in map (\<lambda>p. \<lparr>bill = r, amount = a, Is_Past_Due_45 = past_due_45 r, priority = p\<rparr>)
           (if ms = [] then [None] else ms)))"

definition merge :: "vendor_table \<Rightarrow> (bill \<times> real) list \<Rightarrow> candidate list" where
  "merge vt df = concat (map (merge_row vt) df)"

definition default_priority :: "vendor_table \<Rightarrow> candidate list \<Rightarrow> candidate list" where
  \<comment> \<open>line 109: \<^verbatim>\<open>filtered_df.get("priority", 0)\<close> is the column when the frame has
      one, and 0 for every row otherwise\<close>
  "default_priority vt df =
     (case vt of
        No_Priority_Column vs \<Rightarrow> map (\<lambda>c. c\<lparr>priority := Some 0\<rparr>) df
      | Priority_Column rows \<Rightarrow> df)"

text \<open>
  \<^verbatim>\<open>sort_values(by=[Is_Past_Due_45, priority, Due Date], ascending=[False, False, True])\<close>
  sorts stably on the three keys, with missing values last in every key
  (\<^verbatim>\<open>na_position="last"\<close>). The key below orders rows in that way under the
  lexicographic order of tuples.
\<close>

definition order_key :: "candidate \<Rightarrow> nat \<times> (nat \<times> int) \<times> (nat \<times> int)" where
  "order_key c =
     (if Is_Past_Due_45 c then 0 else 1,
      (case priority c of Some p \<Rightarrow> (0, - p) | None \<Rightarrow> (1, 0)),
      (case Due_Date (bill c) of Some d \<Rightarrow> (0, d) | None \<Rightarrow> (1, 0)))"

definition sort_values :: "candidate list \<Rightarrow> candidate list" where
  \<comment> \<open>lines 110-114\<close>
  "sort_values df = sort_key order_key df"

definition drop_already_recommended :: "string set \<Rightarrow> candidate list \<Rightarrow> candidate list" where
  \<comment> \<open>line 118\<close>
  "drop_already_recommended already_recommended df =
     filter (\<lambda>c. Doc_Num (bill c) \<notin> already_recommended) df"

definition filtered_df ::
  "bill list \<Rightarrow> string list \<Rightarrow> vendor_table \<Rightarrow> string set \<Rightarrow> candidate list" where
  \<comment> \<open>the frame \<^verbatim>\<open>filtered_df\<close> at line 118\<close>
  "filtered_df df exclusions vendor_table already_recommended =
     (let vt = normalize_vendor_table vendor_table
      in drop_already_recommended already_recommended
           (sort_values
             (default_priority vt
               (merge vt
                 (after_cutoff
                   (dropna_Amount
                     (keep_bills
                       (drop_excluded (normalize_exclusions exclusions)
                         (normalize_Vendor df)))))))))"

subsection \<open>The vendor budget of the week (lines 121-133)\<close>

fun global_vendor_budget ::
  "(timestamp option \<times> real option) list \<Rightarrow> timestamp \<Rightarrow> real option option" where
  \<comment> \<open>the first row of the week; the outer \<open>None\<close> is "no row", the inner one NaN\<close>
  "global_vendor_budget [] week_ending = None"
| "global_vendor_budget ((w, b) # rows) week_ending =
     (if w = Some week_ending then Some b else global_vendor_budget rows week_ending)"

subsection \<open>Arithmetic on doubles\<close>

text \<open>
  The exponent of a positive real \<open>x\<close> is the integer \<open>e\<close> with
  \<open>2\<^sup>e \<le> x < 2\<^sup>e\<^sup>+\<^sup>1\<close>. It is computed from the bit length of the integer part of
  \<open>x\<close>, or of \<open>1 / x\<close> when \<open>x\<close> is below 1.
\<close>

definition exponent :: "real \<Rightarrow> int" where
  "exponent x =
     (if 1 \<le> x then bitlen \<lfloor>x\<rfloor> - 1
      else (let k = bitlen \<lfloor>1 / x\<rfloor> - 1
            in if x * power_int 2 k = 1 then - k else - k - 1))"

definition round_half_even :: "real \<Rightarrow> int" where
  "round_half_even y =
     (let f = \<lfloor>y\<rfloor>; d = y - of_int f
      in if d < 1 / 2 then f
         else if 1 / 2 < d then f + 1
         else if even f then f else f + 1)"

text \<open>
  Rounding to the nearest double: the doubles around \<open>x\<close> are the multiples of
  \<open>2\<^sup>e\<^sup>-\<^sup>5\<^sup>2\<close>, for the exponent \<open>e\<close> of \<open>\<bar>x\<bar>\<close>. A sum or difference of two doubles
  that falls below the normal range is a double itself, so the spacing of the
  subnormal doubles needs no case of its own here.
\<close>

definition round_double :: "real \<Rightarrow> real" where
  "round_double x =
     (if x = 0 then 0
      else (let ulp = power_int 2 (exponent \<bar>x\<bar> - 52)
            in ulp * of_int (round_half_even (x / ulp))))"

definition fadd :: "real \<Rightarrow> real \<Rightarrow> real" where
  \<comment> \<open>\<^verbatim>\<open>x + y\<close> on doubles\<close>
  "fadd x y = round_double (x + y)"

definition fsub :: "real \<Rightarrow> real \<Rightarrow> real" where
  \<comment> \<open>\<^verbatim>\<open>x - y\<close> on doubles\<close>
  "fsub x y = round_double (x - y)"

subsection \<open>The allocation loop (lines 136-172)\<close>

definition payment_amount :: "real \<Rightarrow> real option \<Rightarrow> real \<Rightarrow> real" where
  \<comment> \<open>line 157. Python's \<^verbatim>\<open>min(a, b, c)\<close> keeps \<open>a\<close> unless \<open>b < a\<close>, then that
      unless \<open>c\<close> is smaller; a NaN is smaller than nothing.\<close>
  "payment_amount invoice_amount remaining_vendor_budget remaining_weekly_budget =
     (let m = (case remaining_vendor_budget of
                 None \<Rightarrow> invoice_amount
               | Some b \<Rightarrow> if b < invoice_amount then b else invoice_amount)
      in if remaining_weekly_budget < m then remaining_weekly_budget else m)"

definition vendor_cap_reached :: "real \<Rightarrow> real option \<Rightarrow> bool" where
  \<comment> \<open>\<^verbatim>\<open>vendor_cumulative >= global_vendor_budget\<close>, false against NaN\<close>
  "vendor_cap_reached vendor_cumulative gvb =
     (case gvb of None \<Rightarrow> False | Some g \<Rightarrow> g \<le> vendor_cumulative)"

text \<open>The inner loop over one vendor's rows. It returns the recommendations it
  appended and the new \<^verbatim>\<open>total_cumulative\<close>.\<close>

fun vendor_loop ::
  "real option \<Rightarrow> real \<Rightarrow> real \<Rightarrow> real \<Rightarrow> candidate list \<Rightarrow> recommendation list \<times> real" where
  "vendor_loop gvb weekly_budget vendor_cumulative total_cumulative [] = ([], total_cumulative)"
| "vendor_loop gvb weekly_budget vendor_cumulative total_cumulative (row # rows) =
     (let invoice_amount = amount row;
          remaining_vendor_budget = map_option (\<lambda>g. fsub g vendor_cumulative) gvb;
          remaining_weekly_budget = fsub weekly_budget total_cumulative;
          pay = payment_amount invoice_amount remaining_vendor_budget remaining_weekly_budget
      in if pay \<le> 0 then ([], total_cumulative)
         else
           (let vendor_cumulative' = fadd vendor_cumulative pay;
                total_cumulative' = fadd total_cumulative pay;
                rec = \<lparr>invoice = row, Payment_Amount = pay,
                       CumulativeVendor = vendor_cumulative', Cumulative = total_cumulative'\<rparr>
            in if vendor_cap_reached vendor_cumulative' gvb \<or> weekly_budget \<le> total_cumulative'
               then ([rec], total_cumulative')
               else (case vendor_loop gvb weekly_budget vendor_cumulative' total_cumulative' rows of
                       (recs, t) \<Rightarrow> (rec # recs, t))))"

text \<open>\<^verbatim>\<open>groupby("Vendor")\<close> with its defaults: one group per vendor, the groups in
  ascending order of the vendor name, the rows of a group in the order of the frame.\<close>

definition groupby_Vendor :: "candidate list \<Rightarrow> (string \<times> candidate list) list" where
  "groupby_Vendor df =
     map (\<lambda>v. (v, filter (\<lambda>c. Vendor (bill c) = v) df))
       (sort (remdups (map (\<lambda>c. Vendor (bill c)) df)))"

fun group_loop ::
  "real option \<Rightarrow> real \<Rightarrow> real \<Rightarrow> (string \<times> candidate list) list \<Rightarrow> recommendation list" where
  "group_loop gvb weekly_budget total_cumulative [] = []"
| "group_loop gvb weekly_budget total_cumulative ((vendor, rows) # grouped) =
     (case vendor_loop gvb weekly_budget 0 total_cumulative rows of
        (recs, t) \<Rightarrow> recs @ group_loop gvb weekly_budget t grouped)"

subsection \<open>The per-vendor summary (lines 175-183)\<close>

fun join :: "string \<Rightarrow> string list \<Rightarrow> string" where
  "join sep [] = []"
| "join sep [x] = x"
| "join sep (x # y # ys) = x @ sep @ join sep (y # ys)"

definition rec_Vendor :: "recommendation \<Rightarrow> string" where
  "rec_Vendor r = Vendor (bill (invoice r))"

definition rec_Doc_Num :: "recommendation \<Rightarrow> string" where
  "rec_Doc_Num r = Doc_Num (bill (invoice r))"

text \<open>The grouped \<^verbatim>\<open>"sum"\<close> of pandas adds the doubles of a group in order with a
  running compensation (Kahan summation).\<close>

fun group_sum :: "real \<Rightarrow> real \<Rightarrow> real list \<Rightarrow> real" where
  "group_sum sumx compensation [] = sumx"
| "group_sum sumx compensation (val # vals) =
     (let y = fsub val compensation;
          t = fadd sumx y
      in group_sum t (fsub (fsub t sumx) y) vals)"

definition summarize :: "recommendation list \<Rightarrow> (string \<times> string \<times> real) list option" where
  "summarize recommended =
     (if recommended = [] then None
      else Some (map (\<lambda>v. (let rs = filter (\<lambda>r. rec_Vendor r = v) recommended
                             in (v, join '', '' (map rec_Doc_Num rs),
                                 group_sum 0 0 (map Payment_Amount rs))))
                  (sort (remdups (map rec_Vendor recommended)))))"

subsection \<open>\<^verbatim>\<open>filter_and_recommend\<close>\<close>

definition recommend ::
  "bill list \<Rightarrow> real \<Rightarrow> string list \<Rightarrow> vendor_table \<Rightarrow> timestamp \<Rightarrow> string set \<Rightarrow>
   (timestamp option \<times> real option) list \<Rightarrow> recommendation list" where
  \<comment> \<open>the first component of the returned pair\<close>
  "recommend df weekly_budget exclusions vendor_table week_ending already_recommended
      vendor_budget_df =
     (case global_vendor_budget vendor_budget_df week_ending of
        None \<Rightarrow> []
      | Some gvb \<Rightarrow>
          group_loop gvb weekly_budget 0
            (groupby_Vendor (filtered_df df exclusions vendor_table already_recommended)))"

text \<open>The call with its effects on the caller's frames: the ledger and the vendor
  table come back with their vendor columns normalised.\<close>

record outcome =
  df_after :: "bill list"
  vendor_table_after :: vendor_table
  recommended_df :: "recommendation list"
  recommended_summary :: "(string \<times> string \<times> real) list option"

definition filter_and_recommend ::
  "bill list \<Rightarrow> real \<Rightarrow> string list \<Rightarrow> vendor_table \<Rightarrow> timestamp \<Rightarrow> string set \<Rightarrow>
   (timestamp option \<times> real option) list \<Rightarrow> outcome" where
  "filter_and_recommend df weekly_budget exclusions vendor_table week_ending already_recommended
      vendor_budget_df =
     (let recommended = recommend df weekly_budget exclusions vendor_table week_ending
                          already_recommended vendor_budget_df
      in \<lparr>df_after = normalize_Vendor df,
          vendor_table_after = normalize_vendor_table vendor_table,
          recommended_df = recommended,
          recommended_summary = summarize recommended\<rparr>)"

subsection \<open>The loop over budget periods (main.py lines 77-100)\<close>

text \<open>
  The state of the loop: the ledger and the vendor table (mutated by each call), the
  set \<^verbatim>\<open>already_recommended\<close>, and the output. The output is kept per period, each
  entry being a period's week ending with its non-empty recommendations;
  \<^verbatim>\<open>all_recommendations\<close> is their concatenation, each row tagged with its week.
\<close>

record run =
  ledger :: "bill list"
  vendors :: vendor_table
  already_recommended :: "string set"
  periods_out :: "(timestamp \<times> recommendation list) list"

definition period_step ::
  "string list \<Rightarrow> (timestamp option \<times> real option) list \<Rightarrow> run \<Rightarrow>
   timestamp option \<times> real option \<Rightarrow> run" where
  "period_step exclusions_list vendor_budget_df st = (\<lambda>(week_ending, weekly_budget).
     (case (week_ending, weekly_budget) of
        (Some w, Some b) \<Rightarrow>
          (let out = filter_and_recommend (ledger st) b exclusions_list (vendors st) w
                       (already_recommended st) vendor_budget_df;
               st' = st\<lparr>ledger := df_after out, vendors := vendor_table_after out\<rparr>
           in if recommended_df out = [] then st'
              else st'\<lparr>already_recommended :=
                         already_recommended st \<union> set (map rec_Doc_Num (recommended_df out)),
                       periods_out := periods_out st @ [(w, recommended_df out)]\<rparr>)
      | _ \<Rightarrow> st))"

definition run_periods ::
  "bill list \<Rightarrow> string list \<Rightarrow> vendor_table \<Rightarrow> (timestamp option \<times> real option) list \<Rightarrow>
   (timestamp option \<times> real option) list \<Rightarrow> run" where
  "run_periods df exclusions_list vendor_table weekly_budget_df vendor_budget_df =
     foldl (period_step exclusions_list vendor_budget_df)
       \<lparr>ledger = df, vendors = vendor_table, already_recommended = {}, periods_out = []\<rparr>
       weekly_budget_df"

definition all_recommendations :: "run \<Rightarrow> (recommendation \<times> timestamp) list" where
  "all_recommendations st = concat (map (\<lambda>(w, recs). map (\<lambda>r. (r, w)) recs) (periods_out st))"

subsection \<open>Example inputs\<close>

text \<open>The ledger of the scenario in the specification: one vendor, written in two
  ways, with two urgent bills of 100 and 200.\<close>

definition acme_D1 :: bill where
  "acme_D1 = \<lparr>Aging_Category = ''31 - 60 days past due'', Date = Some (day 19730),
     Transaction_Type = ''Bill'', Doc_Num = ''D1'', Vendor = '' Acme '',
     Due_Date = Some (day 19754), Past_Due = Some 60, Amount = Some 100,
     Open_Balance = ''100.00''\<rparr>"

definition acme_D2 :: bill where
  "acme_D2 = \<lparr>Aging_Category = ''61 - 90 days past due'', Date = Some (day 19725),
     Transaction_Type = ''Bill'', Doc_Num = ''D2'', Vendor = ''ACME'',
     Due_Date = Some (day 19737), Past_Due = Some 77, Amount = Some 200,
     Open_Balance = ''200.00''\<rparr>"

definition week1 :: timestamp where
  "week1 = day 19820"

definition week2 :: timestamp where
  "week2 = day 19827"

text \<open>A bill of another vendor that is not urgent.\<close>

definition beta_B1 :: bill where
  "beta_B1 = \<lparr>Aging_Category = ''1 - 30 days past due'', Date = Some (day 19790),
     Transaction_Type = ''Bill'', Doc_Num = ''B1'', Vendor = ''Beta Supply'',
     Due_Date = Some (day 19810), Past_Due = Some 10, Amount = Some 80,
     Open_Balance = ''80.00''\<rparr>"

text \<open>A bill whose due date and days past due do not parse, and one whose amount
  does not parse.\<close>

definition gamma_G1 :: bill where
  "gamma_G1 = \<lparr>Aging_Category = ''Current'', Date = Some (day 19800),
     Transaction_Type = ''Bill'', Doc_Num = ''G1'', Vendor = ''Gamma'',
     Due_Date = None, Past_Due = None, Amount = Some 40,
     Open_Balance = ''40.00''\<rparr>"

definition delta_X1 :: bill where
  "delta_X1 = \<lparr>Aging_Category = ''Current'', Date = Some (day 19800),
     Transaction_Type = ''Bill'', Doc_Num = ''X1'', Vendor = ''Delta'',
     Due_Date = Some (day 19830), Past_Due = Some 0, Amount = None,
     Open_Balance = ''''\<rparr>"

text \<open>The scenario of the specification, and the same ledger with one more vendor
  while the first is excluded.\<close>

definition scenario :: "recommendation list" where
  "scenario = recommend [acme_D1, acme_D2] 250 [] (Priority_Column []) week1 {}
                [(Some week1, Some 250)]"

definition scenario_excluded :: "recommendation list" where
  "scenario_excluded = recommend [acme_D1, beta_B1, acme_D2] 250 [''  ACME''] (Priority_Column [])
                         week1 {} [(Some week1, Some 250)]"

text \<open>Two periods over the scenario's ledger: the first week can pay 200, the
  second 250.\<close>

definition two_weeks :: run where
  "two_weeks = run_periods [acme_D1, acme_D2] [] (Priority_Column [])
                 [(Some week1, Some 200), (Some week2, Some 250)]
                 [(Some week1, Some 250), (Some week2, Some 250)]"

text \<open>Two vendors with one urgent bill each, and a Vendors sheet that ranks the
  second in the alphabet first.\<close>

definition alpha_A1 :: bill where
  "alpha_A1 = \<lparr>Aging_Category = ''31 - 60 days past due'', Date = Some (day 19730),
     Transaction_Type = ''Bill'', Doc_Num = ''A1'', Vendor = ''Alpha'',
     Due_Date = Some (day 19750), Past_Due = Some 60, Amount = Some 100,
     Open_Balance = ''100.00''\<rparr>"

definition zeta_Z1 :: bill where
  "zeta_Z1 = \<lparr>Aging_Category = ''31 - 60 days past due'', Date = Some (day 19730),
     Transaction_Type = ''Bill'', Doc_Num = ''Z1'', Vendor = ''Zeta'',
     Due_Date = Some (day 19740), Past_Due = Some 60, Amount = Some 100,
     Open_Balance = ''100.00''\<rparr>"

definition zeta_first :: vendor_table where
  "zeta_first = Priority_Column [(''Zeta'', Some 10), (''Alpha'', Some 1)]"

text \<open>A Vendors sheet that knows one vendor only, with a negative priority.\<close>

definition beta_only :: vendor_table where
  "beta_only = Priority_Column [(''Beta Supply'', Some (- 1))]"

text \<open>Two urgent bills of one vendor whose amounts are the doubles nearest to 3060.68
  and 4262.46, and the double nearest to 7167.89 for a budget.\<close>

definition omega_F1 :: bill where
  "omega_F1 = \<lparr>Aging_Category = ''31 - 60 days past due'', Date = Some (day 19730),
     Transaction_Type = ''Bill'', Doc_Num = ''F1'', Vendor = ''Omega'',
     Due_Date = Some (day 19740), Past_Due = Some 60, Amount = Some (round_double 3060.68),
     Open_Balance = ''3060.68''\<rparr>"

definition omega_F2 :: bill where
  "omega_F2 = \<lparr>Aging_Category = ''31 - 60 days past due'', Date = Some (day 19730),
     Transaction_Type = ''Bill'', Doc_Num = ''F2'', Vendor = ''Omega'',
     Due_Date = Some (day 19750), Past_Due = Some 60, Amount = Some (round_double 4262.46),
     Open_Balance = ''4262.46''\<rparr>"

definition budget_7167_89 :: real where
  "budget_7167_89 = round_double 7167.89"

text \<open>The scenario's vendor with a third bill that is not urgent, first in the ledger,
  and budgets that pay all three.\<close>

definition acme_D3 :: bill where
  "acme_D3 = \<lparr>Aging_Category = ''1 - 30 days past due'', Date = Some (day 19780),
     Transaction_Type = ''Bill'', Doc_Num = ''D3'', Vendor = ''Acme'',
     Due_Date = Some (day 19700), Past_Due = Some 10, Amount = Some 30,
     Open_Balance = ''30.00''\<rparr>"

definition candidates3 :: "candidate list" where
  "candidates3 = filtered_df [acme_D3, acme_D1, acme_D2] [] (Priority_Column []) {}"

definition scenario3 :: "recommendation list" where
  "scenario3 = recommend [acme_D3, acme_D1, acme_D2] 1000 [] (Priority_Column []) week1 {}
                 [(Some week1, Some 1000)]"

subsection \<open>Sums of doubles\<close>

text \<open>The relative error of one rounding is at most \<open>2\<^sup>-\<^sup>5\<^sup>3\<close>.\<close>

definition unit_roundoff :: real where
  "unit_roundoff = 1 / 2 ^ 53"

text \<open>The sum of a list of doubles as the loop accumulates it: from 0, one rounded
  addition per element, as \<^verbatim>\<open>total_cumulative += payment_amount\<close> does.\<close>

definition fsum :: "real list \<Rightarrow> real" where
  "fsum xs = foldl fadd 0 xs"

subsection \<open>The order of allocation\<close>

text \<open>Two recommendations of the same vendor are in allocation order when their
  rows are in the order of the sort.\<close>

definition allocated_in_order :: "recommendation \<Rightarrow> recommendation \<Rightarrow> bool" where
  "allocated_in_order a b \<longleftrightarrow>
     (rec_Vendor a = rec_Vendor b \<longrightarrow> order_key (invoice a) \<le> order_key (invoice b))"

subsection \<open>The invariant of the loop over periods\<close>

definition doc_nums :: "timestamp \<times> recommendation list \<Rightarrow> string set" where
  "doc_nums p = set (map rec_Doc_Num (snd p))"

text \<open>The set \<^verbatim>\<open>already_recommended\<close> holds exactly the Doc Nums of the periods
  written so far, and no two of these periods share one.\<close>

definition periods_disjoint :: "run \<Rightarrow> bool" where
  "periods_disjoint st \<longleftrightarrow>
     already_recommended st = \<Union> (doc_nums ` set (periods_out st)) \<and>
     sorted_wrt (\<lambda>p q. doc_nums p \<inter> doc_nums q = {}) (periods_out st)"

section \<open>Properties of the allocation loop\<close>

subsection \<open>The error of one rounding\<close>

lemma round_half_even_error: "\<bar>of_int (round_half_even y) - y\<bar> \<le> 1 / 2"
proof -
  have "of_int \<lfloor>y\<rfloor> \<le> y" "y < of_int \<lfloor>y\<rfloor> + 1" by linarith+
  then show ?thesis by (auto simp: round_half_even_def Let_def)
qed

lemma bitlen_ge_1: "0 < x \<Longrightarrow> 1 \<le> bitlen x"
  using compute_bitlen [of x] bitlen_nonneg [of "x div 2"] by simp

lemma exponent_le:
  assumes "0 < x"
  shows "power_int 2 (exponent x) \<le> x"
proof (cases "1 \<le> x")
  case True
  then have pos: "0 < \<lfloor>x\<rfloor>" by linarith
  then have "0 \<le> bitlen \<lfloor>x\<rfloor> - 1"
    using bitlen_ge_1 [of "\<lfloor>x\<rfloor>"] by simp
  then have "power_int 2 (exponent x) = (2::real) ^ nat (bitlen \<lfloor>x\<rfloor> - 1)"
    using True by (simp add: exponent_def power_int_nonneg_exp)
  also have "\<dots> = of_int (2 ^ nat (bitlen \<lfloor>x\<rfloor> - 1))" by simp
  also have "\<dots> \<le> of_int \<lfloor>x\<rfloor>" using bitlen_bounds [OF pos] by (simp only: of_int_le_iff)
  also have "\<dots> \<le> x" by linarith
  finally show ?thesis .
next
  case False
  define m where "m = \<lfloor>1 / x\<rfloor>"
  define k where "k = bitlen m - 1"
  from False assms have "1 < 1 / x" by simp
  then have pos: "0 < m" unfolding m_def by linarith
  from bitlen_ge_1 [OF pos] have k: "0 \<le> k"
    unfolding k_def by simp
  show ?thesis
  proof (cases "x * power_int 2 k = 1")
    case True
    with False have "exponent x = - k" by (simp add: exponent_def Let_def m_def k_def)
    moreover from True have "x = power_int 2 (- k)"
      by (simp add: power_int_minus field_simps)
    ultimately show ?thesis by simp
  next
    case ne: False
    with False have e: "exponent x = - (k + 1)"
      by (simp add: exponent_def Let_def m_def k_def)
    have "m < 2 ^ nat (bitlen m)" using bitlen_bounds [OF pos] by simp
    then have "m + 1 \<le> 2 ^ nat (k + 1)" unfolding k_def by simp
    then have "real_of_int (m + 1) \<le> real_of_int (2 ^ nat (k + 1))" by (simp only: of_int_le_iff)
    moreover have "1 / x < real_of_int (m + 1)" unfolding m_def by linarith
    ultimately have "1 / x < 2 ^ nat (k + 1)" by simp
    with assms have "1 / 2 ^ nat (k + 1) < x"
      by (simp add: field_simps)
    moreover have "power_int 2 (- (k + 1)) = 1 / (2::real) ^ nat (k + 1)"
    proof -
      have "power_int 2 (- (k + 1)) = inverse (power_int (2::real) (k + 1))"
        by (rule power_int_minus)
      also have "power_int (2::real) (k + 1) = 2 ^ nat (k + 1)"
        using k by (intro power_int_nonneg_exp) simp
      finally show ?thesis by (simp only: inverse_eq_divide)
    qed
    ultimately show ?thesis by (simp add: e)
  qed
qed

lemma round_double_error: "\<bar>round_double x - x\<bar> \<le> \<bar>x\<bar> / 2 ^ 53"
proof (cases "x = 0")
  case True
  then show ?thesis by (simp add: round_double_def)
next
  case False
  define e where "e = exponent \<bar>x\<bar>"
  define ulp :: real where "ulp = power_int 2 (e - 52)"
  have ulp: "0 < ulp" by (simp add: ulp_def)
  have rd: "round_double x = ulp * of_int (round_half_even (x / ulp))"
    using False by (simp add: round_double_def Let_def ulp_def e_def)
  have "round_double x - x = ulp * (of_int (round_half_even (x / ulp)) - x / ulp)"
    using ulp by (simp add: rd field_simps)
  then have "\<bar>round_double x - x\<bar> = ulp * \<bar>of_int (round_half_even (x / ulp)) - x / ulp\<bar>"
    using ulp by (simp add: abs_mult)
  also have "\<dots> \<le> ulp * (1 / 2)"
    using ulp round_half_even_error [of "x / ulp"] by (intro mult_left_mono) simp_all
  also have "ulp * (1 / 2) = power_int 2 e / 2 ^ 53"
    by (simp add: ulp_def power_int_diff)
  also have "\<dots> \<le> \<bar>x\<bar> / 2 ^ 53"
    using exponent_le [of "\<bar>x\<bar>"] False by (simp add: e_def divide_right_mono)
  finally show ?thesis .
qed

lemma unit_roundoff_bounds: "0 < unit_roundoff" "unit_roundoff < 1"
  by (simp_all add: unit_roundoff_def)

lemma round_double_nonneg:
  assumes "0 \<le> x"
  shows "0 \<le> round_double x" and "round_double x \<le> x * (1 + unit_roundoff)"
    and "x * (1 - unit_roundoff) \<le> round_double x"
proof -
  have e: "\<bar>round_double x - x\<bar> \<le> x * unit_roundoff"
    using round_double_error [of x] assms by (simp add: unit_roundoff_def)
  then show "round_double x \<le> x * (1 + unit_roundoff)"
    and low: "x * (1 - unit_roundoff) \<le> round_double x"
    by (simp_all add: algebra_simps abs_le_iff)
  have "0 \<le> x * (1 - unit_roundoff)"
    using assms unit_roundoff_bounds by (intro mult_nonneg_nonneg) simp_all
  with low show "0 \<le> round_double x" by simp
qed

lemma round_double_nonpos:
  assumes "x \<le> 0"
  shows "round_double x \<le> 0"
proof -
  have "\<bar>round_double x - x\<bar> \<le> - x * unit_roundoff"
    using round_double_error [of x] assms by (simp add: unit_roundoff_def)
  then have "round_double x \<le> x * (1 - unit_roundoff)"
    by (simp add: algebra_simps abs_le_iff)
  moreover have "x * (1 - unit_roundoff) \<le> 0"
    using assms unit_roundoff_bounds by (intro mult_nonpos_nonneg) simp_all
  ultimately show ?thesis by simp
qed

text \<open>
  One step of a running total \<open>c\<close> against a budget \<open>b\<close>: a positive payment that is
  at most the remaining budget as the code computes it.
\<close>

lemma budget_step:
  assumes c: "0 \<le> c" and p: "0 < p" and le: "p \<le> fsub b c"
  shows "0 \<le> fadd c p"
    and "fadd c p \<le> max b 0 * (1 + unit_roundoff)\<^sup>2"
    and "p \<le> fadd c p - c + unit_roundoff * (max b 0 * (1 + unit_roundoff))"
proof -
  note u = unit_roundoff_bounds
  have d: "0 < b - c"
  proof (rule ccontr)
    assume "\<not> 0 < b - c"
    then have "round_double (b - c) \<le> 0" by (intro round_double_nonpos) simp
    with p le show False by (simp add: fsub_def)
  qed
  with c have b: "0 < b" "max b 0 = b" by simp_all
  have "p \<le> (b - c) * (1 + unit_roundoff)"
    using le round_double_nonneg(2) [of "b - c"] d by (simp add: fsub_def)
  also have "\<dots> = b * (1 + unit_roundoff) - c - c * unit_roundoff"
    by (simp add: algebra_simps)
  finally have s: "c + p \<le> b * (1 + unit_roundoff)"
    using mult_nonneg_nonneg [OF c less_imp_le [OF u(1)]] by simp
  have pos: "0 \<le> c + p" using c p by simp
  show "0 \<le> fadd c p"
    unfolding fadd_def by (rule round_double_nonneg(1) [OF pos])
  have "fadd c p \<le> (c + p) * (1 + unit_roundoff)"
    unfolding fadd_def by (rule round_double_nonneg(2) [OF pos])
  also have "\<dots> \<le> (b * (1 + unit_roundoff)) * (1 + unit_roundoff)"
    using s u by (intro mult_right_mono) simp_all
  finally show "fadd c p \<le> max b 0 * (1 + unit_roundoff)\<^sup>2"
    by (simp add: b power2_eq_square)
  have "(c + p) * unit_roundoff \<le> (b * (1 + unit_roundoff)) * unit_roundoff"
    using s u by (intro mult_right_mono) simp_all
  moreover have "(c + p) * (1 - unit_roundoff) \<le> fadd c p"
    unfolding fadd_def by (rule round_double_nonneg(3) [OF pos])
  ultimately show "p \<le> fadd c p - c + unit_roundoff * (max b 0 * (1 + unit_roundoff))"
    by (simp add: b algebra_simps)
qed

subsection \<open>One vendor's loop\<close>

lemma payment_amount_le_invoice: "payment_amount a rvb rwb \<le> a"
  by (simp add: payment_amount_def split: option.split)


lemma payment_amount_le_vendor: "payment_amount a (Some b) rwb \<le> b"
  by (simp add: payment_amount_def)

lemma vendor_loop_Cons_cases:
  fixes pay :: real
  assumes run: "vendor_loop gvb wb vc tc (row # rows) = (recs, t)"
    and pay: "pay = payment_amount (amount row) (map_option (\<lambda>g. fsub g vc) gvb) (fsub wb tc)"
  obtains
    (stop) "pay \<le> 0" "recs = []" "t = tc"
  | (last) "0 < pay" "vendor_cap_reached (fadd vc pay) gvb \<or> wb \<le> fadd tc pay"
      "recs = [\<lparr>invoice = row, Payment_Amount = pay, CumulativeVendor = fadd vc pay,
                Cumulative = fadd tc pay\<rparr>]"
      "t = fadd tc pay"
  | (more) recs' where "0 < pay" "\<not> vendor_cap_reached (fadd vc pay) gvb" "fadd tc pay < wb"
      "vendor_loop gvb wb (fadd vc pay) (fadd tc pay) rows = (recs', t)"
      "recs = \<lparr>invoice = row, Payment_Amount = pay, CumulativeVendor = fadd vc pay,
                Cumulative = fadd tc pay\<rparr> # recs'"
proof (cases "pay \<le> 0")
  case True
  with run pay show ?thesis by (intro stop) (simp_all add: Let_def)
next
  case pos: False
  show ?thesis
  proof (cases "vendor_cap_reached (fadd vc pay) gvb \<or> wb \<le> fadd tc pay")
    case True
    with run pay pos show ?thesis by (intro last) (auto simp: Let_def)
  next
    case False
    obtain recs' t' where rest: "vendor_loop gvb wb (fadd vc pay) (fadd tc pay) rows = (recs', t')"
      by (cases "vendor_loop gvb wb (fadd vc pay) (fadd tc pay) rows")
    with run pay pos False show ?thesis by (intro more [of recs']) (auto simp: Let_def)
  qed
qed

lemma vendor_loop_payment:
  "vendor_loop gvb wb vc tc rows = (recs, t) \<Longrightarrow> r \<in> set recs \<Longrightarrow>
     0 < Payment_Amount r \<and> Payment_Amount r \<le> amount (invoice r) \<and> invoice r \<in> set rows"
proof (induction rows arbitrary: vc tc recs t)
  case Nil
  then show ?case by simp
next
  case (Cons row rows)
  from Cons.prems(1) refl show ?case
  proof (cases rule: vendor_loop_Cons_cases)
    case stop
    with Cons.prems(2) show ?thesis by simp
  next
    case last
    with Cons.prems(2) show ?thesis by (simp add: payment_amount_le_invoice)
  next
    case (more recs')
    with Cons.prems(2) Cons.IH [OF more(4)] show ?thesis
      by (auto simp: payment_amount_le_invoice)
  qed
qed

lemma vendor_loop_prefix:
  "vendor_loop gvb wb vc tc rows = (recs, t) \<Longrightarrow> map invoice recs = take (length recs) rows"
proof (induction rows arbitrary: vc tc recs t)
  case Nil
  then show ?case by simp
next
  case (Cons row rows)
  from Cons.prems refl show ?case
  proof (cases rule: vendor_loop_Cons_cases)
    case (more recs')
    with Cons.IH [OF more(4)] show ?thesis by simp
  qed simp_all
qed



text \<open>The same for the vendor's own total, against a vendor budget that is a number.\<close>

lemma vendor_loop_vendor:
  assumes "vendor_loop (Some g) wb vc tc rows = (recs, t)"
    and "0 \<le> vc" and "vc \<le> max g 0 * (1 + unit_roundoff)\<^sup>2"
  shows "0 \<le> foldl fadd vc (map Payment_Amount recs) \<and>
         foldl fadd vc (map Payment_Amount recs) \<le> max g 0 * (1 + unit_roundoff)\<^sup>2 \<and>
         sum_list (map Payment_Amount recs)
           \<le> foldl fadd vc (map Payment_Amount recs) - vc
              + real (length recs) * (unit_roundoff * (max g 0 * (1 + unit_roundoff)))"
  using assms
proof (induction rows arbitrary: vc tc recs t)
  case Nil
  then show ?case by simp
next
  case (Cons row rows)
  define pay where
    "pay = payment_amount (amount row) (map_option (\<lambda>g. fsub g vc) (Some g)) (fsub wb tc)"
  have le: "pay \<le> fsub g vc"
    unfolding pay_def using payment_amount_le_vendor [of "amount row" "fsub g vc" "fsub wb tc"]
    by simp
  from Cons.prems(1) pay_def show ?case
  proof (cases rule: vendor_loop_Cons_cases)
    case stop
    with Cons.prems show ?thesis by simp
  next
    case last
    from budget_step [OF Cons.prems(2) last(1) le] last(3) show ?thesis
      by (simp add: algebra_simps)
  next
    case (more recs')
    note step = budget_step [OF Cons.prems(2) more(1) le]
    from step have "0 \<le> fadd vc pay" "fadd vc pay \<le> max g 0 * (1 + unit_roundoff)\<^sup>2"
      by simp_all
    from Cons.IH [OF more(4) this] step more(5) show ?thesis
      by (simp add: algebra_simps)
  qed
qed

subsection \<open>The loop over the vendor groups\<close>

lemma group_loop_invoice:
  "r \<in> set (group_loop gvb wb tc grouped) \<Longrightarrow>
     \<exists>(v, rows) \<in> set grouped. invoice r \<in> set rows \<and>
        0 < Payment_Amount r \<and> Payment_Amount r \<le> amount (invoice r)"
proof (induction grouped arbitrary: tc)
  case Nil
  then show ?case by simp
next
  case (Cons g grouped)
  obtain v rows where g: "g = (v, rows)" by (cases g)
  obtain recs t where run: "vendor_loop gvb wb 0 tc rows = (recs, t)"
    by (cases "vendor_loop gvb wb 0 tc rows")
  from Cons.prems g run consider "r \<in> set recs" | "r \<in> set (group_loop gvb wb t grouped)"
    by auto
  then show ?case
  proof cases
    case 1
    from vendor_loop_payment [OF run 1] g show ?thesis by simp
  next
    case 2
    from Cons.IH [OF 2] show ?thesis by auto
  qed
qed


lemma group_loop_other_vendor:
  assumes "v \<notin> fst ` set grouped"
    and "\<forall>(k, rows) \<in> set grouped. \<forall>c \<in> set rows. Vendor (bill c) = k"
  shows "filter (\<lambda>r. rec_Vendor r = v) (group_loop gvb wb tc grouped) = []"
proof -
  have "rec_Vendor r \<noteq> v" if "r \<in> set (group_loop gvb wb tc grouped)" for r
  proof -
    from group_loop_invoice [OF that] obtain k rows
      where "(k, rows) \<in> set grouped" "invoice r \<in> set rows" by auto
    with assms show ?thesis by (force simp: rec_Vendor_def)
  qed
  then show ?thesis by (auto simp: filter_empty_conv)
qed

text \<open>The recommendations of one vendor are those of one run of the vendor's loop.\<close>

lemma group_loop_vendor:
  assumes "distinct (map fst grouped)"
    and "\<forall>(k, rows) \<in> set grouped. \<forall>c \<in> set rows. Vendor (bill c) = k"
  shows "filter (\<lambda>r. rec_Vendor r = v) (group_loop gvb wb tc grouped) = [] \<or>
         (\<exists>tc0 rows t. vendor_loop gvb wb 0 tc0 rows
            = (filter (\<lambda>r. rec_Vendor r = v) (group_loop gvb wb tc grouped), t))"
  using assms
proof (induction grouped arbitrary: tc)
  case Nil
  then show ?case by simp
next
  case (Cons a grouped)
  obtain k rows where a: "a = (k, rows)" by (cases a)
  obtain recs t where run: "vendor_loop gvb wb 0 tc rows = (recs, t)"
    by (cases "vendor_loop gvb wb 0 tc rows")
  have rest: "\<forall>(k, rows) \<in> set grouped. \<forall>c \<in> set rows. Vendor (bill c) = k"
    using Cons.prems(2) by simp
  have dist: "distinct (map fst grouped)" and fresh: "k \<notin> fst ` set grouped"
    using Cons.prems(1) a by simp_all
  have vend: "rec_Vendor r = k" if "r \<in> set recs" for r
    using vendor_loop_payment [OF run that] Cons.prems(2) a by (simp add: rec_Vendor_def)
  show ?case
  proof (cases "v = k")
    case True
    have "filter (\<lambda>r. rec_Vendor r = v) recs = recs"
      using vend True by (simp add: filter_id_conv)
    moreover have "filter (\<lambda>r. rec_Vendor r = v) (group_loop gvb wb t grouped) = []"
      using group_loop_other_vendor [OF _ rest] fresh True by simp
    ultimately have "filter (\<lambda>r. rec_Vendor r = v) (group_loop gvb wb tc (a # grouped)) = recs"
      using a run by simp
    with run show ?thesis by metis
  next
    case False
    have "filter (\<lambda>r. rec_Vendor r = v) recs = []"
      using vend False by (auto simp: filter_empty_conv)
    then have "filter (\<lambda>r. rec_Vendor r = v) (group_loop gvb wb tc (a # grouped))
                 = filter (\<lambda>r. rec_Vendor r = v) (group_loop gvb wb t grouped)"
      using a run by simp
    with Cons.IH [OF dist rest, of t] show ?thesis by simp
  qed
qed

lemma groupby_Vendor_keys: "distinct (map fst (groupby_Vendor df))"
  by (simp add: groupby_Vendor_def comp_def)

lemma groupby_Vendor_rows:
  "(k, rows) \<in> set (groupby_Vendor df) \<Longrightarrow> rows = filter (\<lambda>c. Vendor (bill c) = k) df"
  by (auto simp: groupby_Vendor_def)

lemma groupby_Vendor_vendor:
  "\<forall>(k, rows) \<in> set (groupby_Vendor df). \<forall>c \<in> set rows. Vendor (bill c) = k"
  by (auto simp: groupby_Vendor_def)

subsection \<open>The rows that reach the allocation loop\<close>

lemma merge_row_member:
  "c \<in> set (merge_row vt (r, a)) \<Longrightarrow>
     bill c = r \<and> amount c = a \<and> Is_Past_Due_45 c = past_due_45 r"
  by (auto simp: merge_row_def Let_def split: if_splits)

lemma default_priority_member:
  "c \<in> set (default_priority vt df) \<Longrightarrow>
     \<exists>c' \<in> set df. bill c = bill c' \<and> amount c = amount c' \<and>
        Is_Past_Due_45 c = Is_Past_Due_45 c'"
  by (cases vt) (auto simp: default_priority_def)

lemma dropna_Amount_member:
  "(r, a) \<in> set (dropna_Amount df) \<longleftrightarrow> r \<in> set df \<and> Amount r = Some a"
  by (induction df) (auto simp: dropna_Amount_def split: option.splits)

lemma filtered_df_member:
  assumes "c \<in> set (filtered_df df exclusions vt already)"
  shows "\<exists>r \<in> set df. bill c = r\<lparr>Vendor := normalize (Vendor r)\<rparr> \<and>
           normalize (Vendor r) \<notin> set (map normalize exclusions) \<and>
           Transaction_Type r = ''Bill'' \<and>
           Amount r = Some (amount c) \<and>
           (\<exists>d. Date r = Some d \<and> cutoff < d) \<and>
           Is_Past_Due_45 c = past_due_45 r \<and>
           Doc_Num r \<notin> already"
proof -
  let ?vt = "normalize_vendor_table vt"
  let ?rows = "after_cutoff (dropna_Amount (keep_bills
                 (drop_excluded (normalize_exclusions exclusions) (normalize_Vendor df))))"
  from assms have in_def: "c \<in> set (default_priority ?vt (merge ?vt ?rows))"
    and fresh: "Doc_Num (bill c) \<notin> already"
    by (simp_all add: filtered_df_def Let_def sort_values_def drop_already_recommended_def)
  from default_priority_member [OF in_def] obtain c'
    where c': "c' \<in> set (merge ?vt ?rows)" "bill c = bill c'" "amount c = amount c'"
      "Is_Past_Due_45 c = Is_Past_Due_45 c'" by blast
  from c'(1) obtain r0 a where ra: "(r0, a) \<in> set ?rows" "c' \<in> set (merge_row ?vt (r0, a))"
    by (auto simp: merge_def)
  from merge_row_member [OF ra(2)] c'
  have c: "bill c = r0" "amount c = a" "Is_Past_Due_45 c = past_due_45 r0" by simp_all
  from ra(1) have date: "\<exists>d. Date r0 = Some d \<and> cutoff < d"
    and amt: "Amount r0 = Some a"
    and bill_type: "Transaction_Type r0 = ''Bill''"
    and excl: "Vendor r0 \<notin> set (normalize_exclusions exclusions)"
    and src: "r0 \<in> set (normalize_Vendor df)"
    by (auto simp: after_cutoff_def dropna_Amount_member keep_bills_def drop_excluded_def
        split: option.splits)
  from src obtain r where r: "r \<in> set df" "r0 = r\<lparr>Vendor := normalize (Vendor r)\<rparr>"
    by (auto simp: normalize_Vendor_def)
  from r(2) c date amt bill_type excl fresh
  have "bill c = r\<lparr>Vendor := normalize (Vendor r)\<rparr> \<and>
           normalize (Vendor r) \<notin> set (map normalize exclusions) \<and>
           Transaction_Type r = ''Bill'' \<and>
           Amount r = Some (amount c) \<and>
           (\<exists>d. Date r = Some d \<and> cutoff < d) \<and>
           Is_Past_Due_45 c = past_due_45 r \<and>
           Doc_Num r \<notin> already"
    by (simp add: normalize_exclusions_def past_due_45_def)
  with r(1) show ?thesis by blast
qed

lemma filtered_df_sorted: "sorted (map order_key (filtered_df df exclusions vt already))"
  by (simp add: filtered_df_def Let_def drop_already_recommended_def sort_values_def
      sorted_filter)

lemma recommend_member:
  assumes "rec \<in> set (recommend df wb exclusions vt we already vb)"
  shows "invoice rec \<in> set (filtered_df df exclusions vt already) \<and>
         0 < Payment_Amount rec \<and> Payment_Amount rec \<le> amount (invoice rec)"
proof -
  from assms obtain gvb where
    "rec \<in> set (group_loop gvb wb 0 (groupby_Vendor (filtered_df df exclusions vt already)))"
    by (auto simp: recommend_def split: option.splits)
  from group_loop_invoice [OF this] obtain k rows
    where "(k, rows) \<in> set (groupby_Vendor (filtered_df df exclusions vt already))"
      "invoice rec \<in> set rows" "0 < Payment_Amount rec"
      "Payment_Amount rec \<le> amount (invoice rec)" by auto
  with groupby_Vendor_rows [OF this(1)] show ?thesis by simp
qed

text \<open>The flag of a candidate says that its days past due parsed to 45 or more.\<close>

lemma filtered_df_flag:
  assumes "c \<in> set (filtered_df df exclusions vt already)"
  shows "Is_Past_Due_45 c \<longleftrightarrow> (\<exists>p. Past_Due (bill c) = Some p \<and> 45 \<le> p)"
proof -
  from filtered_df_member [OF assms] obtain r
    where "bill c = r\<lparr>Vendor := normalize (Vendor r)\<rparr>" "Is_Past_Due_45 c = past_due_45 r"
    by blast
  then show ?thesis by (cases "Past_Due r") (simp_all add: past_due_45_def)
qed

text \<open>Every ledger row that passes the filters is the row of a candidate.\<close>

lemma merge_row_nonempty: "merge_row vt (r, a) \<noteq> []"
  by (simp add: merge_row_def Let_def)

lemma default_priority_image:
  "c \<in> set df \<Longrightarrow>
     \<exists>c' \<in> set (default_priority vt df). bill c' = bill c \<and> amount c' = amount c \<and>
        Is_Past_Due_45 c' = Is_Past_Due_45 c"
  by (cases vt) (auto simp: default_priority_def)

lemma filtered_df_complete:
  assumes "r \<in> set df"
    and "normalize (Vendor r) \<notin> set (map normalize exclusions)"
    and "Transaction_Type r = ''Bill''"
    and "Amount r = Some a"
    and "Date r = Some d" and "cutoff < d"
    and "Doc_Num r \<notin> already"
  shows "\<exists>c \<in> set (filtered_df df exclusions vt already).
           bill c = r\<lparr>Vendor := normalize (Vendor r)\<rparr> \<and> amount c = a \<and>
           (Is_Past_Due_45 c \<longleftrightarrow> (\<exists>p. Past_Due r = Some p \<and> 45 \<le> p))"
proof -
  let ?vt = "normalize_vendor_table vt"
  let ?rows = "after_cutoff (dropna_Amount (keep_bills
                 (drop_excluded (normalize_exclusions exclusions) (normalize_Vendor df))))"
  define r0 where "r0 = r\<lparr>Vendor := normalize (Vendor r)\<rparr>"
  have "r0 \<in> set (normalize_Vendor df)"
    using assms(1) by (auto simp: normalize_Vendor_def r0_def)
  with assms(2-6) have row: "(r0, a) \<in> set ?rows"
    by (simp add: after_cutoff_def dropna_Amount_member keep_bills_def drop_excluded_def
        normalize_exclusions_def r0_def)
  from merge_row_nonempty [of ?vt r0 a] obtain c1 where c1: "c1 \<in> set (merge_row ?vt (r0, a))"
    by (cases "merge_row ?vt (r0, a)") auto
  with row have "c1 \<in> set (merge ?vt ?rows)" by (auto simp: merge_def)
  from default_priority_image [OF this, of ?vt] obtain c
    where c: "c \<in> set (default_priority ?vt (merge ?vt ?rows))" "bill c = bill c1"
      "amount c = amount c1" "Is_Past_Due_45 c = Is_Past_Due_45 c1" by blast
  from merge_row_member [OF c1] c
  have props: "bill c = r0" "amount c = a" "Is_Past_Due_45 c = past_due_45 r0" by simp_all
  have "Doc_Num (bill c) \<notin> already" using props(1) assms(7) by (simp add: r0_def)
  with c(1) have "c \<in> set (filtered_df df exclusions vt already)"
    by (simp add: filtered_df_def Let_def sort_values_def drop_already_recommended_def)
  moreover have "past_due_45 r0 \<longleftrightarrow> (\<exists>p. Past_Due r = Some p \<and> 45 \<le> p)"
    by (cases "Past_Due r") (simp_all add: past_due_45_def r0_def)
  ultimately show ?thesis using props by (auto simp: r0_def)
qed

text \<open>Rows whose Amount or Date is missing can be removed from the ledger beforehand.\<close>

lemma filtered_df_without_unparsed:
  "filtered_df (filter (\<lambda>r. Amount r \<noteq> None \<and> Date r \<noteq> None) df) exclusions vt already
     = filtered_df df exclusions vt already"
proof -
  let ?P = "\<lambda>r. Amount r \<noteq> None \<and> Date r \<noteq> None"
  have one: "normalize_Vendor (filter ?P df) = filter ?P (normalize_Vendor df)"
    by (induction df) (simp_all add: normalize_Vendor_def)
  have two: "drop_excluded ex (filter ?P xs) = filter ?P (drop_excluded ex xs)" for ex xs
    by (induction xs) (simp_all add: drop_excluded_def)
  have three: "keep_bills (filter ?P xs) = filter ?P (keep_bills xs)" for xs
    by (induction xs) (simp_all add: keep_bills_def)
  have four: "after_cutoff (dropna_Amount (filter ?P xs)) = after_cutoff (dropna_Amount xs)" for xs
  proof (induction xs)
    case Nil
    show ?case by simp
  next
    case (Cons x xs)
    show ?case
    proof (cases "Amount x")
      case None
      with Cons show ?thesis by (simp add: dropna_Amount_def)
    next
      case (Some a)
      with Cons show ?thesis
        by (cases "Date x") (simp_all add: dropna_Amount_def after_cutoff_def)
    qed
  qed
  show ?thesis by (simp only: filtered_df_def one two three four)
qed

subsection \<open>The order of the recommendations\<close>

lemma vendor_loop_sorted:
  assumes "vendor_loop gvb wb vc tc rows = (recs, t)" and "sorted (map order_key rows)"
  shows "sorted (map (\<lambda>r. order_key (invoice r)) recs)"
proof -
  have "map (\<lambda>r. order_key (invoice r)) recs = map order_key (map invoice recs)"
    by simp
  also have "\<dots> = take (length recs) (map order_key rows)"
    by (simp only: vendor_loop_prefix [OF assms(1)] take_map)
  finally show ?thesis using assms(2) by (simp add: sorted_wrt_take)
qed

lemma group_loop_sorted:
  assumes "distinct (map fst grouped)"
    and "\<forall>(k, rows) \<in> set grouped. \<forall>c \<in> set rows. Vendor (bill c) = k"
    and "\<forall>(k, rows) \<in> set grouped. sorted (map order_key rows)"
  shows "sorted_wrt allocated_in_order (group_loop gvb wb tc grouped)"
  using assms
proof (induction grouped arbitrary: tc)
  case Nil
  then show ?case by simp
next
  case (Cons a grouped)
  obtain k rows where a: "a = (k, rows)" by (cases a)
  obtain recs t where run: "vendor_loop gvb wb 0 tc rows = (recs, t)"
    by (cases "vendor_loop gvb wb 0 tc rows")
  have vend: "\<forall>(k, rows) \<in> set grouped. \<forall>c \<in> set rows. Vendor (bill c) = k"
    and srt: "\<forall>(k, rows) \<in> set grouped. sorted (map order_key rows)"
    and dist: "distinct (map fst grouped)" and fresh: "k \<notin> fst ` set grouped"
    using Cons.prems a by simp_all
  have here: "rec_Vendor r = k" if "r \<in> set recs" for r
    using vendor_loop_payment [OF run that] Cons.prems(2) a by (simp add: rec_Vendor_def)
  have there: "rec_Vendor r \<noteq> k" if "r \<in> set (group_loop gvb wb t grouped)" for r
  proof -
    from group_loop_invoice [OF that] obtain k' rows'
      where "(k', rows') \<in> set grouped" "invoice r \<in> set rows'" by auto
    with vend fresh show ?thesis by (force simp: rec_Vendor_def)
  qed
  have "sorted (map order_key rows)" using Cons.prems(3) a by simp
  from vendor_loop_sorted [OF run this]
  have "sorted_wrt (\<lambda>x y. order_key (invoice x) \<le> order_key (invoice y)) recs"
    by (simp add: sorted_map)
  then have one: "sorted_wrt allocated_in_order recs"
    by (rule sorted_wrt_mono_rel [rotated]) (simp add: allocated_in_order_def)
  have two: "sorted_wrt allocated_in_order (group_loop gvb wb t grouped)"
    by (rule Cons.IH [OF dist vend srt])
  have three: "allocated_in_order x y"
    if "x \<in> set recs" "y \<in> set (group_loop gvb wb t grouped)" for x y
    using here [OF that(1)] there [OF that(2)] by (simp add: allocated_in_order_def)
  from one two three a run show ?case by (simp add: sorted_wrt_append)
qed

lemma groupby_Vendor_sorted:
  "sorted (map order_key df) \<Longrightarrow> \<forall>(k, rows) \<in> set (groupby_Vendor df). sorted (map order_key rows)"
  by (auto simp: groupby_Vendor_def sorted_filter)

lemma recommend_sorted:
  "sorted_wrt allocated_in_order (recommend df wb exclusions vt we already vb)"
proof (cases "global_vendor_budget vb we")
  case None
  then show ?thesis by (simp add: recommend_def)
next
  case (Some gvb)
  have "sorted_wrt allocated_in_order
          (group_loop gvb wb 0 (groupby_Vendor (filtered_df df exclusions vt already)))"
    by (rule group_loop_sorted [OF groupby_Vendor_keys groupby_Vendor_vendor
          groupby_Vendor_sorted [OF filtered_df_sorted]])
  with Some show ?thesis by (simp add: recommend_def)
qed

lemma order_key_le:
  assumes "order_key a \<le> order_key b"
  shows "(Is_Past_Due_45 b \<longrightarrow> Is_Past_Due_45 a) \<and>
         (Is_Past_Due_45 a = Is_Past_Due_45 b \<and> priority a = priority b \<longrightarrow>
            (\<forall>d e. Due_Date (bill a) = Some d \<and> Due_Date (bill b) = Some e \<longrightarrow> d \<le> e) \<and>
            (Due_Date (bill a) = None \<longrightarrow> Due_Date (bill b) = None))"
  using assms by (auto simp: order_key_def split: if_splits option.splits)

text \<open>A row that sorts strictly before an emitted row of its vendor was emitted
  earlier: the loop takes the rows of a vendor from the front and skips none.\<close>

lemma sorted_before:
  assumes "sorted (map f xs)" and "j < length xs" and "c \<in> set xs" and "f c < f (xs ! j)"
  shows "\<exists>i<j. xs ! i = c"
proof -
  from assms(3) obtain i where i: "i < length xs" "xs ! i = c"
    by (auto simp: in_set_conv_nth)
  have "i < j"
  proof (rule ccontr)
    assume "\<not> i < j"
    then have "j \<le> i" by simp
    with assms(1) i(1) have "map f xs ! j \<le> map f xs ! i"
      by (intro sorted_nth_mono) simp_all
    with i assms(2,4) show False by simp
  qed
  with i show ?thesis by blast
qed

lemma vendor_loop_before:
  assumes run: "vendor_loop gvb wb vc tc rows = (recs, t)"
    and "sorted (map order_key rows)" and "j < length recs" and "c \<in> set rows"
    and "order_key c < order_key (invoice (recs ! j))"
  shows "\<exists>i<j. invoice (recs ! i) = c"
proof -
  note prefix = vendor_loop_prefix [OF run]
  have "length (map invoice recs) = length (take (length recs) rows)"
    by (simp only: prefix)
  then have len: "length recs \<le> length rows" by simp
  have nth: "invoice (recs ! i) = rows ! i" if "i < length recs" for i
  proof -
    from that have "invoice (recs ! i) = map invoice recs ! i" by simp
    also have "\<dots> = rows ! i" using that by (simp add: prefix)
    finally show ?thesis .
  qed
  from assms(3) len have "j < length rows" by simp
  from sorted_before [OF assms(2) this assms(4)] assms(5) nth [OF assms(3)]
  obtain i where "i < j" "rows ! i = c" by auto
  with nth [of i] assms(3) show ?thesis by auto
qed

lemma group_loop_before:
  assumes "distinct (map fst grouped)"
    and "\<forall>(k, rows) \<in> set grouped. \<forall>c \<in> set rows. Vendor (bill c) = k"
    and "\<forall>(k, rows) \<in> set grouped. sorted (map order_key rows)"
    and "j < length (group_loop gvb wb tc grouped)"
    and "(k, rows) \<in> set grouped" and "c \<in> set rows"
    and "rec_Vendor (group_loop gvb wb tc grouped ! j) = k"
    and "order_key c < order_key (invoice (group_loop gvb wb tc grouped ! j))"
  shows "\<exists>i<j. invoice (group_loop gvb wb tc grouped ! i) = c"
  using assms
proof (induction grouped arbitrary: tc j)
  case Nil
  then show ?case by simp
next
  case (Cons a grouped)
  obtain k1 rows1 where a: "a = (k1, rows1)" by (cases a)
  obtain recs t where run: "vendor_loop gvb wb 0 tc rows1 = (recs, t)"
    by (cases "vendor_loop gvb wb 0 tc rows1")
  have all: "group_loop gvb wb tc (a # grouped) = recs @ group_loop gvb wb t grouped"
    using a run by simp
  have vend: "\<forall>(k, rows) \<in> set grouped. \<forall>c \<in> set rows. Vendor (bill c) = k"
    and srt: "\<forall>(k, rows) \<in> set grouped. sorted (map order_key rows)"
    and dist: "distinct (map fst grouped)" and fresh: "k1 \<notin> fst ` set grouped"
    using Cons.prems(1-3) a by simp_all
  have here: "rec_Vendor r = k1" if "r \<in> set recs" for r
    using vendor_loop_payment [OF run that] Cons.prems(2) a by (simp add: rec_Vendor_def)
  have there: "rec_Vendor r \<noteq> k1" if "r \<in> set (group_loop gvb wb t grouped)" for r
  proof -
    from group_loop_invoice [OF that] obtain k2 rows2
      where "(k2, rows2) \<in> set grouped" "invoice r \<in> set rows2" by auto
    with vend fresh show ?thesis by (force simp: rec_Vendor_def)
  qed
  show ?case
  proof (cases "j < length recs")
    case True
    then have j: "group_loop gvb wb tc (a # grouped) ! j = recs ! j"
      by (simp add: all nth_append)
    with Cons.prems(7) here [of "recs ! j"] True have "k = k1" by simp
    have "(k1, rows) \<notin> set grouped"
    proof
      assume "(k1, rows) \<in> set grouped"
      then have "fst (k1, rows) \<in> fst ` set grouped" by (rule imageI)
      with fresh show False by simp
    qed
    with Cons.prems(5) a \<open>k = k1\<close> have "rows = rows1" by simp
    have "sorted (map order_key rows1)" using Cons.prems(3) a by simp
    from vendor_loop_before [OF run this True] Cons.prems(6,8) j \<open>rows = rows1\<close>
    obtain i where i: "i < j" "invoice (recs ! i) = c" by auto
    with True have "group_loop gvb wb tc (a # grouped) ! i = recs ! i"
      by (simp add: all nth_append)
    with i show ?thesis by auto
  next
    case False
    define j0 where "j0 = j - length recs"
    from False Cons.prems(4) have j0: "j0 < length (group_loop gvb wb t grouped)"
      and j: "group_loop gvb wb tc (a # grouped) ! j = group_loop gvb wb t grouped ! j0"
      by (simp_all add: all nth_append j0_def)
    from j0 have "group_loop gvb wb t grouped ! j0 \<in> set (group_loop gvb wb t grouped)"
      by simp
    from there [OF this] Cons.prems(7) j have "k \<noteq> k1" by simp
    with Cons.prems(5) a have mem: "(k, rows) \<in> set grouped" by simp
    from Cons.IH [OF dist vend srt j0 mem Cons.prems(6)] Cons.prems(7,8) j
    obtain i0 where i0: "i0 < j0" "invoice (group_loop gvb wb t grouped ! i0) = c" by auto
    have "group_loop gvb wb tc (a # grouped) ! (length recs + i0)
            = group_loop gvb wb t grouped ! i0"
      by (simp add: all nth_append)
    with i0(2) have "invoice (group_loop gvb wb tc (a # grouped) ! (length recs + i0)) = c"
      by simp
    moreover have "length recs + i0 < j" using i0(1) False by (simp add: j0_def)
    ultimately show ?thesis by blast
  qed
qed

lemma groupby_Vendor_member:
  "c \<in> set df \<Longrightarrow>
     (Vendor (bill c), filter (\<lambda>x. Vendor (bill x) = Vendor (bill c)) df) \<in> set (groupby_Vendor df)"
  by (auto simp: groupby_Vendor_def)

lemma recommend_before:
  assumes "recs = recommend df wb exclusions vt we already vb"
    and "j < length recs" and "c \<in> set (filtered_df df exclusions vt already)"
    and "Vendor (bill c) = rec_Vendor (recs ! j)"
    and "order_key c < order_key (invoice (recs ! j))"
  shows "\<exists>i<j. invoice (recs ! i) = c"
proof (cases "global_vendor_budget vb we")
  case None
  with assms(1,2) show ?thesis by (simp add: recommend_def)
next
  case (Some gvb)
  let ?F = "filtered_df df exclusions vt already"
  have recs: "recs = group_loop gvb wb 0 (groupby_Vendor ?F)"
    using Some assms(1) by (simp add: recommend_def)
  have "c \<in> set (filter (\<lambda>x. Vendor (bill x) = Vendor (bill c)) ?F)"
    using assms(3) by simp
  from group_loop_before [OF groupby_Vendor_keys groupby_Vendor_vendor
      groupby_Vendor_sorted [OF filtered_df_sorted] _ groupby_Vendor_member [OF assms(3)] this,
      of j gvb wb 0] assms(2,4,5)
  show ?thesis by (simp add: recs)
qed

lemma order_key_less:
  "Is_Past_Due_45 a \<Longrightarrow> \<not> Is_Past_Due_45 b \<Longrightarrow> order_key a < order_key b"
  "Is_Past_Due_45 a = Is_Past_Due_45 b \<Longrightarrow> priority a = priority b \<Longrightarrow>
     Due_Date (bill a) = Some d \<Longrightarrow> Due_Date (bill b) = Some e \<Longrightarrow> d < e \<Longrightarrow>
     order_key a < order_key b"
  by (auto simp: order_key_def split: option.splits)

subsection \<open>The loop over periods\<close>

lemma recommend_fresh:
  assumes "rec \<in> set (recommend df wb exclusions vt we already vb)"
  shows "rec_Doc_Num rec \<notin> already"
proof -
  from recommend_member [OF assms]
  have "invoice rec \<in> set (filtered_df df exclusions vt already)" by simp
  from filtered_df_member [OF this] show ?thesis by (auto simp: rec_Doc_Num_def)
qed

lemma period_step_disjoint:
  assumes "periods_disjoint st"
  shows "periods_disjoint (period_step exclusions_list vendor_budget_df st row)"
proof (cases row)
  case (Pair week_ending weekly_budget)
  show ?thesis
  proof (cases "\<exists>w b. week_ending = Some w \<and> weekly_budget = Some b")
    case False
    with Pair assms show ?thesis
      by (auto simp: period_step_def split: option.splits)
  next
    case True
    then obtain w b where wb: "week_ending = Some w" "weekly_budget = Some b" by blast
    define recs where "recs = recommend (ledger st) b exclusions_list (vendors st) w
                          (already_recommended st) vendor_budget_df"
    show ?thesis
    proof (cases "recs = []")
      case True
      with Pair wb assms show ?thesis
        by (simp add: period_step_def filter_and_recommend_def Let_def recs_def
            periods_disjoint_def)
    next
      case False
      have fresh: "doc_nums (w, recs) \<inter> already_recommended st = {}"
        using recommend_fresh by (auto simp: doc_nums_def recs_def)
      have step: "period_step exclusions_list vendor_budget_df st row =
          st\<lparr>ledger := normalize_Vendor (ledger st),
             vendors := normalize_vendor_table (vendors st),
             already_recommended := already_recommended st \<union> set (map rec_Doc_Num recs),
             periods_out := periods_out st @ [(w, recs)]\<rparr>"
        using Pair wb False
        by (simp add: period_step_def filter_and_recommend_def Let_def recs_def)
      from assms have old: "already_recommended st = \<Union> (doc_nums ` set (periods_out st))"
        and dis: "sorted_wrt (\<lambda>p q. doc_nums p \<inter> doc_nums q = {}) (periods_out st)"
        by (simp_all add: periods_disjoint_def)
      have "\<forall>p \<in> set (periods_out st). doc_nums p \<inter> doc_nums (w, recs) = {}"
        using fresh old by auto
      with dis have "sorted_wrt (\<lambda>p q. doc_nums p \<inter> doc_nums q = {})
                       (periods_out st @ [(w, recs)])"
        by (simp add: sorted_wrt_append)
      moreover have "already_recommended st \<union> set (map rec_Doc_Num recs)
                       = \<Union> (doc_nums ` set (periods_out st @ [(w, recs)]))"
        using old by (auto simp: doc_nums_def)
      ultimately show ?thesis by (simp add: step periods_disjoint_def)
    qed
  qed
qed

lemma foldl_period_step_disjoint:
  "periods_disjoint st \<Longrightarrow>
     periods_disjoint (foldl (period_step exclusions_list vendor_budget_df) st rows)"
  by (induction rows arbitrary: st) (simp_all add: period_step_disjoint)

lemma run_periods_disjoint:
  "periods_disjoint (run_periods df exclusions_list vendor_table weekly_budget_df vendor_budget_df)"
  unfolding run_periods_def
  by (rule foldl_period_step_disjoint) (simp add: periods_disjoint_def)

subsection \<open>Normalising a vendor name twice\<close>

lemma of_char_lower_char:
  "(of_char (lower_char c) :: nat) =
     (let n = of_char c
      in if (65 \<le> n \<and> n \<le> 90) \<or> (192 \<le> n \<and> n \<le> 214) \<or> (216 \<le> n \<and> n \<le> 222)
         then n + 32 else n)"
  by (auto simp: lower_char_def Let_def)

lemma lower_char_idem: "lower_char (lower_char c) = lower_char c"
proof -
  define n where "n = (of_char (lower_char c) :: nat)"
  have "\<not> ((65 \<le> n \<and> n \<le> 90) \<or> (192 \<le> n \<and> n \<le> 214) \<or> (216 \<le> n \<and> n \<le> 222))"
    unfolding n_def by (auto simp: of_char_lower_char Let_def split: if_splits)
  moreover have "lower_char (lower_char c) =
      (if (65 \<le> n \<and> n \<le> 90) \<or> (192 \<le> n \<and> n \<le> 214) \<or> (216 \<le> n \<and> n \<le> 222)
       then char_of (n + 32) else lower_char c)"
    unfolding n_def by (subst lower_char_def) (simp only: Let_def)
  ultimately show ?thesis by (simp only: if_False)
qed

lemma isspace_lower_char: "isspace (lower_char c) = isspace c"
  by (auto simp: isspace_def of_char_lower_char Let_def)

lemma lower_idem: "lower (lower s) = lower s"
  by (simp add: lower_def lower_char_idem)

lemma dropWhile_isspace_lower: "dropWhile isspace (lower s) = lower (dropWhile isspace s)"
  by (induction s) (simp_all add: lower_def isspace_lower_char)

lemma strip_lower: "strip (lower s) = lower (strip s)"
proof -
  have "rev (lower s) = lower (rev s)" for s by (simp add: lower_def rev_map)
  then show ?thesis
    by (simp add: strip_def dropWhile_isspace_lower)
qed

lemma dropWhile_snoc: "\<not> P x \<Longrightarrow> \<exists>ys. dropWhile P (zs @ [x]) = ys @ [x]"
proof (induction zs)
  case Nil
  then have "dropWhile P ([] @ [x]) = [] @ [x]" by simp
  then show ?case by (rule exI)
next
  case (Cons z zs)
  then obtain ys where ys: "dropWhile P (zs @ [x]) = ys @ [x]" by blast
  show ?case
  proof (cases "P z")
    case True
    with ys have "dropWhile P ((z # zs) @ [x]) = ys @ [x]" by simp
    then show ?thesis by (rule exI)
  next
    case False
    then have "dropWhile P ((z # zs) @ [x]) = (z # zs) @ [x]" by simp
    then show ?thesis by (rule exI)
  qed
qed

lemma strip_idem: "strip (strip s) = strip s"
proof (cases "dropWhile isspace s")
  case Nil
  have e: "strip s = []" unfolding strip_def Nil by simp
  have "strip [] = []" by (simp add: strip_def)
  with e show ?thesis by simp
next
  case (Cons x t)
  then have x: "\<not> isspace x" using hd_dropWhile [of isspace s] by simp
  define u where "u = dropWhile isspace (rev (x # t))"
  have "u \<noteq> []" using x by (auto simp: u_def dropWhile_eq_Nil_conv)
  then have hd: "\<not> isspace (hd u)" unfolding u_def by (rule hd_dropWhile)
  have "\<exists>ys. u = ys @ [x]"
    unfolding u_def using dropWhile_snoc [of isspace x "rev t"] x by simp
  then obtain ys where u: "u = ys @ [x]" by blast
  have strip: "strip s = rev u" by (simp add: strip_def Cons u_def)
  have "rev u = x # rev ys" by (simp add: u)
  then have one: "dropWhile isspace (rev u) = rev u" using x by simp
  have two: "dropWhile isspace u = u" using hd \<open>u \<noteq> []\<close> by (cases u) simp_all
  have "strip (rev u) = rev u" by (simp add: strip_def one two)
  then show ?thesis by (simp only: strip)
qed

lemma normalize_idem: "normalize (normalize s) = normalize s"
  by (simp add: normalize_def strip_lower lower_idem strip_idem)
lemma normalize_Vendor_idem: "normalize_Vendor (normalize_Vendor df) = normalize_Vendor df"
  by (simp add: normalize_Vendor_def normalize_idem)

lemma normalize_vendor_table_idem:
  "normalize_vendor_table (normalize_vendor_table vt) = normalize_vendor_table vt"
  by (cases vt) (simp_all add: normalize_vendor_table_def normalize_idem comp_def case_prod_unfold)

lemma filtered_df_normalized:
  "filtered_df (normalize_Vendor df) exclusions (normalize_vendor_table vt) already
     = filtered_df df exclusions vt already"
  by (simp add: filtered_df_def normalize_Vendor_idem normalize_vendor_table_idem)

lemma recommend_normalized:
  "recommend (normalize_Vendor df) wb exclusions (normalize_vendor_table vt) we already vb
     = recommend df wb exclusions vt we already vb"
  by (simp add: recommend_def filtered_df_normalized cong: option.case_cong)

section \<open>The claims\<close>

subsection \<open>Budgets\<close>




text \<open>
  Claim C2, as amended. When the vendor budget found for the week is a number \<open>g\<close>,
  the sum of Payment Amount over the recommendations of one call for any one vendor,
  added up in doubles in the order of the recommendations as the code does for the
  vendor's running total, is at most the larger of \<open>g\<close> and zero, times
  \<open>(1 + 2\<^sup>-\<^sup>5\<^sup>3)\<^sup>2\<close>. The exact sum of the vendor's \<open>n\<close> amounts is at most that larger
  value times \<open>(1 + 2\<^sup>-\<^sup>5\<^sup>3) (1 + (n + 1) 2\<^sup>-\<^sup>5\<^sup>3)\<close>. A vendor budget that is not a
  number caps nothing.
\<close>

theorem vendor_budget_respected:
  assumes "global_vendor_budget vendor_budget_df week_ending = Some (Some g)"
  shows "fsum (map Payment_Amount
      (filter (\<lambda>r. rec_Vendor r = v)
        (recommend df weekly_budget exclusions vendor_table week_ending already vendor_budget_df)))
     \<le> max g 0 * (1 + unit_roundoff)\<^sup>2 \<and>
   sum_list (map Payment_Amount
      (filter (\<lambda>r. rec_Vendor r = v)
        (recommend df weekly_budget exclusions vendor_table week_ending already vendor_budget_df)))
     \<le> max g 0 * (1 + unit_roundoff)
        * (1 + unit_roundoff
           + real (length (filter (\<lambda>r. rec_Vendor r = v)
                (recommend df weekly_budget exclusions vendor_table week_ending already
                   vendor_budget_df))) * unit_roundoff)"
proof -
  define recs where
    "recs = filter (\<lambda>r. rec_Vendor r = v)
              (group_loop (Some g) weekly_budget 0
                 (groupby_Vendor (filtered_df df exclusions vendor_table already)))"
  have recs: "filter (\<lambda>r. rec_Vendor r = v)
                (recommend df weekly_budget exclusions vendor_table week_ending already
                   vendor_budget_df) = recs"
    using assms by (simp add: recommend_def recs_def)
  have bound: "0 \<le> max g 0 * (1 + unit_roundoff)\<^sup>2"
    by (intro mult_nonneg_nonneg) simp_all
  have "fsum (map Payment_Amount recs) \<le> max g 0 * (1 + unit_roundoff)\<^sup>2 \<and>
        sum_list (map Payment_Amount recs)
          \<le> fsum (map Payment_Amount recs)
             + real (length recs) * (unit_roundoff * (max g 0 * (1 + unit_roundoff)))"
  proof (cases "recs = []")
    case True
    with bound show ?thesis by (simp add: fsum_def)
  next
    case False
    with group_loop_vendor [OF groupby_Vendor_keys groupby_Vendor_vendor,
        of v "Some g" weekly_budget 0 "filtered_df df exclusions vendor_table already"]
    obtain tc0 rows t where "vendor_loop (Some g) weekly_budget 0 tc0 rows = (recs, t)"
      unfolding recs_def by blast
    from vendor_loop_vendor [OF this order_refl bound] show ?thesis
      by (simp add: fsum_def)
  qed
  then have total: "fsum (map Payment_Amount recs) \<le> max g 0 * (1 + unit_roundoff)\<^sup>2"
    and "sum_list (map Payment_Amount recs)
        \<le> max g 0 * (1 + unit_roundoff)\<^sup>2
           + real (length recs) * (unit_roundoff * (max g 0 * (1 + unit_roundoff)))"
    by simp_all
  moreover have "max g 0 * (1 + unit_roundoff)\<^sup>2
           + real (length recs) * (unit_roundoff * (max g 0 * (1 + unit_roundoff)))
         = max g 0 * (1 + unit_roundoff)
             * (1 + unit_roundoff + real (length recs) * unit_roundoff)"
    by (simp add: algebra_simps power2_eq_square)
  ultimately show ?thesis by (simp add: recs)
qed

theorem vendor_budget_respected_witness:
  "global_vendor_budget [(Some week1, Some 150)] week1 = Some (Some 150)
   \<and> map Payment_Amount (filter (\<lambda>r. rec_Vendor r = ''acme'')
        (recommend [acme_D1, acme_D2] 250 [] (Priority_Column []) week1 {}
           [(Some week1, Some 150)])) = [150]
   \<and> fsum (map Payment_Amount (filter (\<lambda>r. rec_Vendor r = ''acme'')
        (recommend [acme_D1, acme_D2] 250 [] (Priority_Column []) week1 {}
           [(Some week1, Some 150)]))) \<le> max 150 0 * (1 + unit_roundoff)\<^sup>2"
proof -
  have h: "global_vendor_budget [(Some week1, Some 150)] week1 = Some (Some 150)"
    by simp
  have "map Payment_Amount (filter (\<lambda>r. rec_Vendor r = ''acme'')
        (recommend [acme_D1, acme_D2] 250 [] (Priority_Column []) week1 {}
           [(Some week1, Some 150)])) = [150]"
    by code_simp
  with h vendor_budget_respected [OF h, of "''acme''" "[acme_D1, acme_D2]" 250 "[]"
      "Priority_Column []" "{}"]
  show ?thesis by blast
qed

text \<open>
  Claim C2 as it is written fails in three ways. With a negative vendor budget nothing
  is recommended for the vendor, and the empty sum 0 is above the budget. With a
  vendor budget cell that does not parse the budget is NaN, every comparison with it
  is false, and the vendor is paid 200 and 100 with no cap at all. With amounts
  3060.68 and 4262.46 and a vendor budget of 7167.89 the vendor's running total
  becomes 7167.890000000001, above the budget.
\<close>

theorem vendor_budget_counterexample:
  "global_vendor_budget [(Some week1, Some (- 1))] week1 = Some (Some (- 1))
   \<and> \<not> sum_list (map Payment_Amount (filter (\<lambda>r. rec_Vendor r = ''acme'')
        (recommend [acme_D1, acme_D2] 250 [] (Priority_Column []) week1 {}
           [(Some week1, Some (- 1))]))) \<le> - 1
   \<and> global_vendor_budget [(Some week1, None)] week1 = Some None
   \<and> map Payment_Amount (filter (\<lambda>r. rec_Vendor r = ''acme'')
        (recommend [acme_D1, acme_D2] 1000 [] (Priority_Column []) week1 {}
           [(Some week1, None)])) = [200, 100]
   \<and> global_vendor_budget [(Some week1, Some budget_7167_89)] week1 = Some (Some budget_7167_89)
   \<and> map CumulativeVendor (filter (\<lambda>r. rec_Vendor r = ''omega'')
        (recommend [omega_F1, omega_F2] 10000 [] (Priority_Column []) week1 {}
           [(Some week1, Some budget_7167_89)]))
       = [6730506497802895 / 2199023255552, 3940589200809657 / 549755813888]
   \<and> \<not> fsum (map Payment_Amount (filter (\<lambda>r. rec_Vendor r = ''omega'')
        (recommend [omega_F1, omega_F2] 10000 [] (Priority_Column []) week1 {}
           [(Some week1, Some budget_7167_89)]))) \<le> budget_7167_89
   \<and> \<not> sum_list (map Payment_Amount (filter (\<lambda>r. rec_Vendor r = ''omega'')
        (recommend [omega_F1, omega_F2] 10000 [] (Priority_Column []) week1 {}
           [(Some week1, Some budget_7167_89)]))) \<le> budget_7167_89"
proof -
  have "recommend [acme_D1, acme_D2] 250 [] (Priority_Column []) week1 {}
           [(Some week1, Some (- 1))] = []"
    by code_simp
  then have one: "\<not> sum_list (map Payment_Amount (filter (\<lambda>r. rec_Vendor r = ''acme'')
        (recommend [acme_D1, acme_D2] 250 [] (Priority_Column []) week1 {}
           [(Some week1, Some (- 1))]))) \<le> - 1"
    by simp
  have two: "map Payment_Amount (filter (\<lambda>r. rec_Vendor r = ''acme'')
        (recommend [acme_D1, acme_D2] 1000 [] (Priority_Column []) week1 {}
           [(Some week1, None)])) = [200, 100]"
    by code_simp
  have three: "map CumulativeVendor (filter (\<lambda>r. rec_Vendor r = ''omega'')
        (recommend [omega_F1, omega_F2] 10000 [] (Priority_Column []) week1 {}
           [(Some week1, Some budget_7167_89)]))
       = [6730506497802895 / 2199023255552, 3940589200809657 / 549755813888]"
    by code_simp
  have four: "\<not> fsum (map Payment_Amount (filter (\<lambda>r. rec_Vendor r = ''omega'')
        (recommend [omega_F1, omega_F2] 10000 [] (Priority_Column []) week1 {}
           [(Some week1, Some budget_7167_89)]))) \<le> budget_7167_89"
    by code_simp
  have five: "\<not> sum_list (map Payment_Amount (filter (\<lambda>r. rec_Vendor r = ''omega'')
        (recommend [omega_F1, omega_F2] 10000 [] (Priority_Column []) week1 {}
           [(Some week1, Some budget_7167_89)]))) \<le> budget_7167_89"
    by code_simp
  have a: "global_vendor_budget [(Some week1, Some (- 1))] week1 = Some (Some (- 1))"
    and b: "global_vendor_budget [(Some week1, None)] week1 = Some None"
    and c: "global_vendor_budget [(Some week1, Some budget_7167_89)] week1
              = Some (Some budget_7167_89)"
    by simp_all
  from a one b two c three four five show ?thesis by (intro conjI)
qed

text \<open>
  Claim C3. Every recommendation has a Payment Amount above zero, and it is the
  recommendation of a ledger row (with the vendor name normalised) whose Amount is a
  number that the Payment Amount does not exceed.
\<close>

theorem payment_positive_and_within_invoice:
  assumes "rec \<in> set (recommend df weekly_budget exclusions vendor_table week_ending already
                        vendor_budget_df)"
  shows "0 < Payment_Amount rec \<and>
         (\<exists>r \<in> set df. bill (invoice rec) = r\<lparr>Vendor := normalize (Vendor r)\<rparr> \<and>
            (\<exists>a. Amount r = Some a \<and> Payment_Amount rec \<le> a))"
proof -
  from recommend_member [OF assms]
  have c: "invoice rec \<in> set (filtered_df df exclusions vendor_table already)"
    and pay: "0 < Payment_Amount rec" "Payment_Amount rec \<le> amount (invoice rec)"
    by simp_all
  from filtered_df_member [OF c] pay show ?thesis by fastforce
qed

theorem payment_positive_and_within_invoice_witness:
  "recommend [acme_D1, acme_D2] 250 [] (Priority_Column []) week1 {} [(Some week1, Some 250)] ! 1
     \<in> set (recommend [acme_D1, acme_D2] 250 [] (Priority_Column []) week1 {}
              [(Some week1, Some 250)])
   \<and> 0 < Payment_Amount
       (recommend [acme_D1, acme_D2] 250 [] (Priority_Column []) week1 {}
          [(Some week1, Some 250)] ! 1)"
proof -
  have len: "length (recommend [acme_D1, acme_D2] 250 [] (Priority_Column []) week1 {}
              [(Some week1, Some 250)]) = 2"
    by code_simp
  have h: "recommend [acme_D1, acme_D2] 250 [] (Priority_Column []) week1 {}
             [(Some week1, Some 250)] ! 1
     \<in> set (recommend [acme_D1, acme_D2] 250 [] (Priority_Column []) week1 {}
              [(Some week1, Some 250)])"
    by (rule nth_mem) (simp add: len)
  from payment_positive_and_within_invoice [OF h] h show ?thesis by blast
qed

subsection \<open>Order of allocation\<close>

text \<open>
  Claim C7. Take the recommendations of one call and one of them, at position \<open>j\<close>.

  Of two recommendations for the same vendor, the earlier one is urgent (its days
  past due parsed to 45 or more) whenever the later one is; and when both have the
  same urgency and the same priority and both due dates parsed, the due date of the
  earlier one is not later.

  No bill is passed over: a candidate of the same vendor that is urgent while the
  recommendation at \<open>j\<close> is not, or that has the same urgency and priority and a
  strictly earlier due date, was itself recommended at a position before \<open>j\<close>.
\<close>

theorem allocation_order_within_vendor:
  assumes "recs = recommend df weekly_budget exclusions vendor_table week_ending already
                    vendor_budget_df"
    and "j < length recs"
  shows "(\<forall>i<j. rec_Vendor (recs ! i) = rec_Vendor (recs ! j) \<longrightarrow>
            ((\<exists>p. Past_Due (bill (invoice (recs ! j))) = Some p \<and> 45 \<le> p) \<longrightarrow>
             (\<exists>p. Past_Due (bill (invoice (recs ! i))) = Some p \<and> 45 \<le> p)) \<and>
            (((\<exists>p. Past_Due (bill (invoice (recs ! i))) = Some p \<and> 45 \<le> p) \<longleftrightarrow>
              (\<exists>p. Past_Due (bill (invoice (recs ! j))) = Some p \<and> 45 \<le> p)) \<and>
             priority (invoice (recs ! i)) = priority (invoice (recs ! j)) \<longrightarrow>
               (\<forall>d e. Due_Date (bill (invoice (recs ! i))) = Some d \<and>
                      Due_Date (bill (invoice (recs ! j))) = Some e \<longrightarrow> d \<le> e))) \<and>
         (\<forall>c \<in> set (filtered_df df exclusions vendor_table already).
            Vendor (bill c) = rec_Vendor (recs ! j) \<longrightarrow>
            ((\<exists>p. Past_Due (bill c) = Some p \<and> 45 \<le> p) \<and>
             \<not> (\<exists>p. Past_Due (bill (invoice (recs ! j))) = Some p \<and> 45 \<le> p) \<longrightarrow>
               (\<exists>i<j. invoice (recs ! i) = c)) \<and>
            (((\<exists>p. Past_Due (bill c) = Some p \<and> 45 \<le> p) \<longleftrightarrow>
              (\<exists>p. Past_Due (bill (invoice (recs ! j))) = Some p \<and> 45 \<le> p)) \<and>
             priority c = priority (invoice (recs ! j)) \<and>
             (\<exists>d e. Due_Date (bill c) = Some d \<and>
                    Due_Date (bill (invoice (recs ! j))) = Some e \<and> d < e) \<longrightarrow>
               (\<exists>i<j. invoice (recs ! i) = c)))"
proof -
  let ?F = "filtered_df df exclusions vendor_table already"
  have cand: "invoice r \<in> set ?F" if "r \<in> set recs" for r
    using that assms(1) recommend_member by blast
  have flag: "Is_Past_Due_45 c \<longleftrightarrow> (\<exists>p. Past_Due (bill c) = Some p \<and> 45 \<le> p)"
    if "c \<in> set ?F" for c
    using that by (rule filtered_df_flag)
  from assms(2) have j: "recs ! j \<in> set recs" by simp
  note fj = flag [OF cand [OF j]]
  have pairs: "((\<exists>p. Past_Due (bill (invoice (recs ! j))) = Some p \<and> 45 \<le> p) \<longrightarrow>
             (\<exists>p. Past_Due (bill (invoice (recs ! i))) = Some p \<and> 45 \<le> p)) \<and>
            (((\<exists>p. Past_Due (bill (invoice (recs ! i))) = Some p \<and> 45 \<le> p) \<longleftrightarrow>
              (\<exists>p. Past_Due (bill (invoice (recs ! j))) = Some p \<and> 45 \<le> p)) \<and>
             priority (invoice (recs ! i)) = priority (invoice (recs ! j)) \<longrightarrow>
               (\<forall>d e. Due_Date (bill (invoice (recs ! i))) = Some d \<and>
                      Due_Date (bill (invoice (recs ! j))) = Some e \<longrightarrow> d \<le> e))"
    if "i < j" "rec_Vendor (recs ! i) = rec_Vendor (recs ! j)" for i
  proof -
    from that(1) assms(2) have i: "recs ! i \<in> set recs" by simp
    note fi = flag [OF cand [OF i]]
    from recommend_sorted [of df weekly_budget exclusions vendor_table week_ending already
        vendor_budget_df] assms that
    have "order_key (invoice (recs ! i)) \<le> order_key (invoice (recs ! j))"
      by (simp add: sorted_wrt_iff_nth_less allocated_in_order_def)
    from order_key_le [OF this] show ?thesis
      unfolding fi fj by blast
  qed
  have before: "((\<exists>p. Past_Due (bill c) = Some p \<and> 45 \<le> p) \<and>
             \<not> (\<exists>p. Past_Due (bill (invoice (recs ! j))) = Some p \<and> 45 \<le> p) \<longrightarrow>
               (\<exists>i<j. invoice (recs ! i) = c)) \<and>
            (((\<exists>p. Past_Due (bill c) = Some p \<and> 45 \<le> p) \<longleftrightarrow>
              (\<exists>p. Past_Due (bill (invoice (recs ! j))) = Some p \<and> 45 \<le> p)) \<and>
             priority c = priority (invoice (recs ! j)) \<and>
             (\<exists>d e. Due_Date (bill c) = Some d \<and>
                    Due_Date (bill (invoice (recs ! j))) = Some e \<and> d < e) \<longrightarrow>
               (\<exists>i<j. invoice (recs ! i) = c))"
    if "c \<in> set ?F" "Vendor (bill c) = rec_Vendor (recs ! j)" for c
  proof -
    note fc = flag [OF that(1)]
    note earlier = recommend_before [OF assms(1,2) that]
    have one: "\<exists>i<j. invoice (recs ! i) = c"
      if "\<exists>p. Past_Due (bill c) = Some p \<and> 45 \<le> p"
        "\<not> (\<exists>p. Past_Due (bill (invoice (recs ! j))) = Some p \<and> 45 \<le> p)"
      using that earlier order_key_less(1) [of c "invoice (recs ! j)"]
      unfolding fc [symmetric] fj [symmetric] by blast
    have two: "\<exists>i<j. invoice (recs ! i) = c"
      if "(\<exists>p. Past_Due (bill c) = Some p \<and> 45 \<le> p) \<longleftrightarrow>
              (\<exists>p. Past_Due (bill (invoice (recs ! j))) = Some p \<and> 45 \<le> p)"
        "priority c = priority (invoice (recs ! j))"
        "Due_Date (bill c) = Some d" "Due_Date (bill (invoice (recs ! j))) = Some e" "d < e"
      for d e
      using that earlier order_key_less(2) [of c "invoice (recs ! j)" d e]
      unfolding fc [symmetric] fj [symmetric] by blast
    from one two show ?thesis by blast
  qed
  from pairs before show ?thesis by blast
qed

text \<open>The three bills of one vendor are paid in the order D2, D1, D3: the two urgent
  ones by due date, then the one that is not urgent, although it is first in the
  ledger and has the earliest due date.\<close>

theorem allocation_order_within_vendor_witness:
  "scenario3 = recommend [acme_D3, acme_D1, acme_D2] 1000 [] (Priority_Column []) week1 {}
                 [(Some week1, Some 1000)]
   \<and> (2::nat) < length scenario3
   \<and> map rec_Doc_Num scenario3 = [''D2'', ''D1'', ''D3'']
   \<and> map (\<lambda>c. Doc_Num (bill c)) candidates3 = [''D2'', ''D1'', ''D3'']
   \<and> candidates3 ! 1 \<in> set (filtered_df [acme_D3, acme_D1, acme_D2] [] (Priority_Column []) {})
   \<and> Vendor (bill (candidates3 ! 1)) = rec_Vendor (scenario3 ! 2)
   \<and> Past_Due (bill (candidates3 ! 1)) = Some 60
   \<and> Past_Due (bill (invoice (scenario3 ! 2))) = Some 10
   \<and> (\<exists>i<2. invoice (scenario3 ! i) = candidates3 ! 1)"
proof -
  have h1: "scenario3 = recommend [acme_D3, acme_D1, acme_D2] 1000 [] (Priority_Column []) week1 {}
                 [(Some week1, Some 1000)]"
    by (simp add: scenario3_def)
  have h2: "(2::nat) < length scenario3" by code_simp
  have docs: "map rec_Doc_Num scenario3 = [''D2'', ''D1'', ''D3'']" by code_simp
  have cands: "map (\<lambda>c. Doc_Num (bill c)) candidates3 = [''D2'', ''D1'', ''D3'']" by code_simp
  have "length candidates3 = 3" by code_simp
  then have "candidates3 ! 1 \<in> set candidates3" by simp
  then have h3: "candidates3 ! 1
      \<in> set (filtered_df [acme_D3, acme_D1, acme_D2] [] (Priority_Column []) {})"
    by (simp add: candidates3_def)
  have h4: "Vendor (bill (candidates3 ! 1)) = rec_Vendor (scenario3 ! 2)" by code_simp
  have urgent: "Past_Due (bill (candidates3 ! 1)) = Some 60" by code_simp
  have slack: "Past_Due (bill (invoice (scenario3 ! 2))) = Some 10" by code_simp
  from urgent have u: "\<exists>p. Past_Due (bill (candidates3 ! 1)) = Some p \<and> 45 \<le> p" by simp
  from slack have n: "\<not> (\<exists>p. Past_Due (bill (invoice (scenario3 ! 2))) = Some p \<and> 45 \<le> p)"
    by simp
  from allocation_order_within_vendor [OF h1 h2] h3 h4 u n
  have "\<exists>i<2. invoice (scenario3 ! i) = candidates3 ! 1" by blast
  with h1 h2 docs cands h3 h4 urgent slack show ?thesis by (intro conjI)
qed

subsection \<open>Exclusions\<close>

text \<open>
  Claim C5. The vendor name of every recommendation is outside the normalised
  exclusion list, and no ledger row whose vendor name, lower-cased and stripped, is
  the lower-cased and stripped form of an entry of the exclusion list is the row of
  a recommendation, whatever the budgets are.
\<close>

theorem excluded_vendor_never_recommended:
  assumes "rec \<in> set (recommend df weekly_budget exclusions vendor_table week_ending already
                        vendor_budget_df)"
  shows "rec_Vendor rec \<notin> set (map normalize exclusions) \<and>
         (\<forall>r \<in> set df. normalize (Vendor r) \<in> set (map normalize exclusions) \<longrightarrow>
            bill (invoice rec) \<noteq> r\<lparr>Vendor := normalize (Vendor r)\<rparr>)"
proof -
  from recommend_member [OF assms]
  have "invoice rec \<in> set (filtered_df df exclusions vendor_table already)" by simp
  from filtered_df_member [OF this] obtain r0
    where r0: "bill (invoice rec) = r0\<lparr>Vendor := normalize (Vendor r0)\<rparr>"
      "normalize (Vendor r0) \<notin> set (map normalize exclusions)" by blast
  from r0 have v: "rec_Vendor rec \<notin> set (map normalize exclusions)"
    by (simp add: rec_Vendor_def)
  have "bill (invoice rec) \<noteq> r\<lparr>Vendor := normalize (Vendor r)\<rparr>"
    if "normalize (Vendor r) \<in> set (map normalize exclusions)" for r
  proof
    assume "bill (invoice rec) = r\<lparr>Vendor := normalize (Vendor r)\<rparr>"
    then have "rec_Vendor rec = normalize (Vendor r)" by (simp add: rec_Vendor_def)
    with v that show False by simp
  qed
  with v show ?thesis by blast
qed

theorem excluded_vendor_never_recommended_witness:
  "scenario_excluded ! 0 \<in> set (recommend [acme_D1, beta_B1, acme_D2] 250 [''  ACME'']
        (Priority_Column []) week1 {} [(Some week1, Some 250)])
   \<and> map rec_Doc_Num scenario_excluded = [''B1'']
   \<and> normalize (Vendor acme_D1) \<in> set (map normalize [''  ACME''])
   \<and> acme_D1 \<in> set [acme_D1, beta_B1, acme_D2]
   \<and> bill (invoice (scenario_excluded ! 0)) \<noteq> acme_D1\<lparr>Vendor := normalize (Vendor acme_D1)\<rparr>"
proof -
  have docs: "map rec_Doc_Num scenario_excluded = [''B1'']" by code_simp
  have "length scenario_excluded = 1" by code_simp
  then have "scenario_excluded ! 0 \<in> set scenario_excluded" by simp
  then have h: "scenario_excluded ! 0 \<in> set (recommend [acme_D1, beta_B1, acme_D2] 250
        [''  ACME''] (Priority_Column []) week1 {} [(Some week1, Some 250)])"
    by (simp add: scenario_excluded_def)
  have ex: "normalize (Vendor acme_D1) \<in> set (map normalize [''  ACME''])" by code_simp
  have mem: "acme_D1 \<in> set [acme_D1, beta_B1, acme_D2]" by simp
  from excluded_vendor_never_recommended [OF h] h docs ex mem show ?thesis by blast
qed

subsection \<open>Cells that fail to parse\<close>

text \<open>
  Claim C9, as amended. A ledger row whose Amount or whose transaction Date fails to
  parse is dropped before the candidates are formed: it is the row of no candidate
  and of no recommendation. The failure is not fatal: the call returns exactly the
  recommendations it returns for the ledger without such rows. A row whose Due Date
  or Past Due fails to parse is not dropped for that: if it is a Bill of a vendor
  that is not excluded, its Amount parsed, its Date parsed to a time after the
  cutoff and its Doc Num is not already recommended, then it is the row of a
  candidate, and the candidate is urgent exactly when Past Due parsed to 45 or more.
\<close>

theorem unparsed_amount_or_date_dropped:
  "(\<forall>r \<in> set df. Amount r = None \<or> Date r = None \<longrightarrow>
      (\<forall>c \<in> set (filtered_df df exclusions vendor_table already).
         bill c \<noteq> r\<lparr>Vendor := normalize (Vendor r)\<rparr>) \<and>
      (\<forall>rec \<in> set (recommend df weekly_budget exclusions vendor_table week_ending already
                       vendor_budget_df).
         bill (invoice rec) \<noteq> r\<lparr>Vendor := normalize (Vendor r)\<rparr>)) \<and>
   recommend df weekly_budget exclusions vendor_table week_ending already vendor_budget_df
     = recommend (filter (\<lambda>r. Amount r \<noteq> None \<and> Date r \<noteq> None) df) weekly_budget exclusions
         vendor_table week_ending already vendor_budget_df \<and>
   (\<forall>r \<in> set df.
      normalize (Vendor r) \<notin> set (map normalize exclusions) \<and>
      Transaction_Type r = ''Bill'' \<and>
      (\<exists>a. Amount r = Some a) \<and>
      (\<exists>d. Date r = Some d \<and> cutoff < d) \<and>
      Doc_Num r \<notin> already \<longrightarrow>
      (\<exists>c \<in> set (filtered_df df exclusions vendor_table already).
         bill c = r\<lparr>Vendor := normalize (Vendor r)\<rparr> \<and>
         (Is_Past_Due_45 c \<longleftrightarrow> (\<exists>p. Past_Due r = Some p \<and> 45 \<le> p))))"
proof -
  have cand: "bill c \<noteq> r\<lparr>Vendor := normalize (Vendor r)\<rparr>"
    if "Amount r = None \<or> Date r = None"
      "c \<in> set (filtered_df df exclusions vendor_table already)" for r c
  proof
    assume eq: "bill c = r\<lparr>Vendor := normalize (Vendor r)\<rparr>"
    from filtered_df_member [OF that(2)] obtain r0 a d
      where r0: "bill c = r0\<lparr>Vendor := normalize (Vendor r0)\<rparr>" "Amount r0 = Some a"
        "Date r0 = Some d" by blast
    with eq have "r0\<lparr>Vendor := normalize (Vendor r0)\<rparr> = r\<lparr>Vendor := normalize (Vendor r)\<rparr>"
      by simp
    then have "Amount (r0\<lparr>Vendor := normalize (Vendor r0)\<rparr>)
                 = Amount (r\<lparr>Vendor := normalize (Vendor r)\<rparr>)"
      and "Date (r0\<lparr>Vendor := normalize (Vendor r0)\<rparr>)
                 = Date (r\<lparr>Vendor := normalize (Vendor r)\<rparr>)"
      by simp_all
    with r0(2,3) have "Amount r = Some a" "Date r = Some d" by simp_all
    with that(1) show False by simp
  qed
  have rec: "bill (invoice rec) \<noteq> r\<lparr>Vendor := normalize (Vendor r)\<rparr>"
    if "Amount r = None \<or> Date r = None"
      "rec \<in> set (recommend df weekly_budget exclusions vendor_table week_ending already
                      vendor_budget_df)" for r rec
    using recommend_member [OF that(2)] cand [OF that(1)] by blast
  have same: "recommend df weekly_budget exclusions vendor_table week_ending already
        vendor_budget_df
     = recommend (filter (\<lambda>r. Amount r \<noteq> None \<and> Date r \<noteq> None) df) weekly_budget exclusions
         vendor_table week_ending already vendor_budget_df"
    by (simp only: recommend_def filtered_df_without_unparsed)
  have kept: "\<exists>c \<in> set (filtered_df df exclusions vendor_table already).
         bill c = r\<lparr>Vendor := normalize (Vendor r)\<rparr> \<and>
         (Is_Past_Due_45 c \<longleftrightarrow> (\<exists>p. Past_Due r = Some p \<and> 45 \<le> p))"
    if "r \<in> set df" "normalize (Vendor r) \<notin> set (map normalize exclusions)"
      "Transaction_Type r = ''Bill''" "Amount r = Some a" "Date r = Some d" "cutoff < d"
      "Doc_Num r \<notin> already" for r a d
    using filtered_df_complete [OF that, of vendor_table] by blast
  from cand rec same kept show ?thesis by blast
qed

text \<open>A ledger of one bill without an Amount and one bill without a Due Date and
  without days past due: the first is no candidate, the second is one, not urgent,
  and is paid.\<close>

theorem unparsed_amount_or_date_dropped_witness:
  "delta_X1 \<in> set [delta_X1, gamma_G1] \<and> (Amount delta_X1 = None \<or> Date delta_X1 = None)
   \<and> map rec_Doc_Num (recommend [delta_X1, gamma_G1] 250 [] (Priority_Column []) week1 {}
        [(Some week1, Some 250)]) = [''G1'']
   \<and> bill (invoice (recommend [delta_X1, gamma_G1] 250 [] (Priority_Column []) week1 {}
                     [(Some week1, Some 250)] ! 0))
       \<noteq> delta_X1\<lparr>Vendor := normalize (Vendor delta_X1)\<rparr>
   \<and> recommend [delta_X1, gamma_G1] 250 [] (Priority_Column []) week1 {} [(Some week1, Some 250)]
       = recommend (filter (\<lambda>r. Amount r \<noteq> None \<and> Date r \<noteq> None) [delta_X1, gamma_G1]) 250 []
           (Priority_Column []) week1 {} [(Some week1, Some 250)]
   \<and> gamma_G1 \<in> set [delta_X1, gamma_G1]
   \<and> Due_Date gamma_G1 = None \<and> Past_Due gamma_G1 = None
   \<and> (\<exists>c \<in> set (filtered_df [delta_X1, gamma_G1] [] (Priority_Column []) {}).
         bill c = gamma_G1\<lparr>Vendor := normalize (Vendor gamma_G1)\<rparr> \<and> \<not> Is_Past_Due_45 c)"
proof -
  note t = unparsed_amount_or_date_dropped [of "[delta_X1, gamma_G1]" "[]" "Priority_Column []"
      "{}" 250 week1 "[(Some week1, Some 250)]"]
  have h1: "delta_X1 \<in> set [delta_X1, gamma_G1]" by simp
  have h2: "Amount delta_X1 = None \<or> Date delta_X1 = None" by (simp add: delta_X1_def)
  have docs: "map rec_Doc_Num (recommend [delta_X1, gamma_G1] 250 [] (Priority_Column []) week1 {}
        [(Some week1, Some 250)]) = [''G1'']"
    by code_simp
  have "length (recommend [delta_X1, gamma_G1] 250 [] (Priority_Column []) week1 {}
        [(Some week1, Some 250)]) = 1"
    by code_simp
  then have mem: "recommend [delta_X1, gamma_G1] 250 [] (Priority_Column []) week1 {}
        [(Some week1, Some 250)] ! 0
      \<in> set (recommend [delta_X1, gamma_G1] 250 [] (Priority_Column []) week1 {}
        [(Some week1, Some 250)])"
    by simp
  from t mem h1 h2
  have one: "bill (invoice (recommend [delta_X1, gamma_G1] 250 [] (Priority_Column []) week1 {}
                     [(Some week1, Some 250)] ! 0))
       \<noteq> delta_X1\<lparr>Vendor := normalize (Vendor delta_X1)\<rparr>"
    by blast
  from t
  have two: "recommend [delta_X1, gamma_G1] 250 [] (Priority_Column []) week1 {}
          [(Some week1, Some 250)]
       = recommend (filter (\<lambda>r. Amount r \<noteq> None \<and> Date r \<noteq> None) [delta_X1, gamma_G1]) 250 []
           (Priority_Column []) week1 {} [(Some week1, Some 250)]"
    by blast
  have g1: "gamma_G1 \<in> set [delta_X1, gamma_G1]" by simp
  have g2: "Due_Date gamma_G1 = None" "Past_Due gamma_G1 = None"
    by (simp_all add: gamma_G1_def)
  have g3: "normalize (Vendor gamma_G1) \<notin> set (map normalize [])"
    "Transaction_Type gamma_G1 = ''Bill''" "\<exists>a. Amount gamma_G1 = Some a"
    "Doc_Num gamma_G1 \<notin> {}"
    by (simp_all add: gamma_G1_def)
  have "cutoff < day 19800" by code_simp
  then have g4: "\<exists>d. Date gamma_G1 = Some d \<and> cutoff < d" by (simp add: gamma_G1_def)
  from t g1 g3 g4
  have "\<exists>c \<in> set (filtered_df [delta_X1, gamma_G1] [] (Priority_Column []) {}).
         bill c = gamma_G1\<lparr>Vendor := normalize (Vendor gamma_G1)\<rparr> \<and>
         (Is_Past_Due_45 c \<longleftrightarrow> (\<exists>p. Past_Due gamma_G1 = Some p \<and> 45 \<le> p))"
    by blast
  with g2(2)
  have three: "\<exists>c \<in> set (filtered_df [delta_X1, gamma_G1] [] (Priority_Column []) {}).
         bill c = gamma_G1\<lparr>Vendor := normalize (Vendor gamma_G1)\<rparr> \<and> \<not> Is_Past_Due_45 c"
    by simp
  from h1 h2 docs one two g1 g2 three show ?thesis by (intro conjI)
qed

text \<open>
  Claim C9 as it is written fails for the due date and the days past due: a bill
  with neither parsed is a candidate and is paid.
\<close>

theorem unparsed_due_date_counterexample:
  "Due_Date gamma_G1 = None \<and> Past_Due gamma_G1 = None
   \<and> map (\<lambda>c. Doc_Num (bill c)) (filtered_df [gamma_G1] [] (Priority_Column []) {}) = [''G1'']
   \<and> map (\<lambda>r. (rec_Doc_Num r, Payment_Amount r))
        (recommend [gamma_G1] 250 [] (Priority_Column []) week1 {} [(Some week1, Some 250)])
      = [(''G1'', 40)]"
  by code_simp

subsection \<open>Periods\<close>

text \<open>
  Claim C4. In a run of the loop over the budget periods against one ledger, the
  recommendations written for two different periods share no Doc Num: after each
  period its Doc Nums are in \<^verbatim>\<open>already_recommended\<close>, and the engine recommends no
  row whose Doc Num is in that set.
\<close>

theorem no_doc_num_in_two_periods:
  assumes "st = run_periods df exclusions_list vendor_table weekly_budget_df vendor_budget_df"
    and "i < j" and "j < length (periods_out st)"
  shows "set (map rec_Doc_Num (snd (periods_out st ! i))) \<inter>
         set (map rec_Doc_Num (snd (periods_out st ! j))) = {}
       \<and> set (map rec_Doc_Num (snd (periods_out st ! i))) \<subseteq> already_recommended st"
proof -
  from run_periods_disjoint [of df exclusions_list vendor_table weekly_budget_df vendor_budget_df]
    assms(1)
  have inv: "already_recommended st = \<Union> (doc_nums ` set (periods_out st))"
    and dis: "sorted_wrt (\<lambda>p q. doc_nums p \<inter> doc_nums q = {}) (periods_out st)"
    by (simp_all add: periods_disjoint_def)
  from dis assms(2,3) have "doc_nums (periods_out st ! i) \<inter> doc_nums (periods_out st ! j) = {}"
    by (simp add: sorted_wrt_iff_nth_less)
  moreover from assms(2,3) have "periods_out st ! i \<in> set (periods_out st)" by simp
  with inv have "doc_nums (periods_out st ! i) \<subseteq> already_recommended st" by blast
  ultimately show ?thesis by (simp add: doc_nums_def)
qed

theorem no_doc_num_in_two_periods_witness:
  "two_weeks = run_periods [acme_D1, acme_D2] [] (Priority_Column [])
                 [(Some week1, Some 200), (Some week2, Some 250)]
                 [(Some week1, Some 250), (Some week2, Some 250)]
   \<and> (0::nat) < 1 \<and> 1 < length (periods_out two_weeks)
   \<and> map (\<lambda>p. map (\<lambda>r. (rec_Doc_Num r, Payment_Amount r)) (snd p)) (periods_out two_weeks)
        = [[(''D2'', 200)], [(''D1'', 100)]]
   \<and> set (map rec_Doc_Num (snd (periods_out two_weeks ! 0))) \<inter>
     set (map rec_Doc_Num (snd (periods_out two_weeks ! 1))) = {}"
proof -
  have h1: "two_weeks = run_periods [acme_D1, acme_D2] [] (Priority_Column [])
                 [(Some week1, Some 200), (Some week2, Some 250)]
                 [(Some week1, Some 250), (Some week2, Some 250)]"
    by (simp add: two_weeks_def)
  have h2: "(0::nat) < 1" by simp
  have h3: "1 < length (periods_out two_weeks)" by code_simp
  have out: "map (\<lambda>p. map (\<lambda>r. (rec_Doc_Num r, Payment_Amount r)) (snd p))
               (periods_out two_weeks) = [[(''D2'', 200)], [(''D1'', 100)]]"
    by code_simp
  from no_doc_num_in_two_periods [OF h1 h2 h3] h1 h2 h3 out show ?thesis by blast
qed

subsection \<open>The ledger across periods\<close>

text \<open>
  Claim C10, as amended. A call of the engine rewrites the Vendor column of the
  caller's ledger: after the call every row has its vendor name lower-cased and
  stripped, and every other field of every row, the number of rows and their order
  are as before. The rewriting does not change what any later call recommends: a
  call on the ledger and vendor table left by an earlier call returns the
  recommendations it would return on the original ones.
\<close>

theorem ledger_changes_only_in_Vendor:
  assumes "out = filter_and_recommend df weekly_budget exclusions vendor_table week_ending already
                   vendor_budget_df"
  shows "df_after out = map (\<lambda>r. r\<lparr>Vendor := normalize (Vendor r)\<rparr>) df \<and>
         length (df_after out) = length df \<and>
         (\<forall>i < length df.
            Aging_Category (df_after out ! i) = Aging_Category (df ! i) \<and>
            Date (df_after out ! i) = Date (df ! i) \<and>
            Transaction_Type (df_after out ! i) = Transaction_Type (df ! i) \<and>
            Doc_Num (df_after out ! i) = Doc_Num (df ! i) \<and>
            Vendor (df_after out ! i) = normalize (Vendor (df ! i)) \<and>
            Due_Date (df_after out ! i) = Due_Date (df ! i) \<and>
            Past_Due (df_after out ! i) = Past_Due (df ! i) \<and>
            Amount (df_after out ! i) = Amount (df ! i) \<and>
            Open_Balance (df_after out ! i) = Open_Balance (df ! i)) \<and>
         recommend (df_after out) weekly_budget2 exclusions2 (vendor_table_after out) week_ending2
             already2 vendor_budget_df2
           = recommend df weekly_budget2 exclusions2 vendor_table week_ending2 already2
               vendor_budget_df2"
proof -
  have after: "df_after out = normalize_Vendor df"
    and table: "vendor_table_after out = normalize_vendor_table vendor_table"
    using assms by (simp_all add: filter_and_recommend_def Let_def)
  have one: "df_after out = map (\<lambda>r. r\<lparr>Vendor := normalize (Vendor r)\<rparr>) df"
    by (simp add: after normalize_Vendor_def)
  have two: "length (df_after out) = length df"
    by (simp add: one)
  have three: "\<forall>i < length df.
            Aging_Category (df_after out ! i) = Aging_Category (df ! i) \<and>
            Date (df_after out ! i) = Date (df ! i) \<and>
            Transaction_Type (df_after out ! i) = Transaction_Type (df ! i) \<and>
            Doc_Num (df_after out ! i) = Doc_Num (df ! i) \<and>
            Vendor (df_after out ! i) = normalize (Vendor (df ! i)) \<and>
            Due_Date (df_after out ! i) = Due_Date (df ! i) \<and>
            Past_Due (df_after out ! i) = Past_Due (df ! i) \<and>
            Amount (df_after out ! i) = Amount (df ! i) \<and>
            Open_Balance (df_after out ! i) = Open_Balance (df ! i)"
    by (simp add: one)
  have four: "recommend (df_after out) weekly_budget2 exclusions2 (vendor_table_after out)
             week_ending2 already2 vendor_budget_df2
           = recommend df weekly_budget2 exclusions2 vendor_table week_ending2 already2
               vendor_budget_df2"
    by (simp only: after table recommend_normalized)
  from one two three four show ?thesis by (intro conjI)
qed

theorem ledger_changes_only_in_Vendor_witness:
  "df_after (filter_and_recommend [acme_D1, acme_D2] 250 [] (Priority_Column []) week1 {}
               [(Some week1, Some 250)])
     = [acme_D1\<lparr>Vendor := ''acme''\<rparr>, acme_D2\<lparr>Vendor := ''acme''\<rparr>]
   \<and> recommend (df_after (filter_and_recommend [acme_D1, acme_D2] 250 [] (Priority_Column [])
                  week1 {} [(Some week1, Some 250)])) 250 []
         (vendor_table_after (filter_and_recommend [acme_D1, acme_D2] 250 [] (Priority_Column [])
                  week1 {} [(Some week1, Some 250)])) week2 {''D2''} [(Some week2, Some 250)]
       = recommend [acme_D1, acme_D2] 250 [] (Priority_Column []) week2 {''D2''}
           [(Some week2, Some 250)]"
proof -
  note t = ledger_changes_only_in_Vendor [OF refl, of "[acme_D1, acme_D2]" 250 "[]"
      "Priority_Column []" week1 "{}" "[(Some week1, Some 250)]" 250 "[]" week2 "{''D2''}"
      "[(Some week2, Some 250)]"]
  have n1: "normalize (Vendor acme_D1) = ''acme''" by code_simp
  have n2: "normalize (Vendor acme_D2) = ''acme''" by code_simp
  have e: "map (\<lambda>r. r\<lparr>Vendor := normalize (Vendor r)\<rparr>) [acme_D1, acme_D2]
          = [acme_D1\<lparr>Vendor := ''acme''\<rparr>, acme_D2\<lparr>Vendor := ''acme''\<rparr>]"
    by (simp only: list.map n1 n2)
  from t have d: "df_after (filter_and_recommend [acme_D1, acme_D2] 250 [] (Priority_Column [])
                  week1 {} [(Some week1, Some 250)])
     = map (\<lambda>r. r\<lparr>Vendor := normalize (Vendor r)\<rparr>) [acme_D1, acme_D2]"
    by (rule conjunct1)
  from d e have one: "df_after (filter_and_recommend [acme_D1, acme_D2] 250 [] (Priority_Column [])
                  week1 {} [(Some week1, Some 250)])
     = [acme_D1\<lparr>Vendor := ''acme''\<rparr>, acme_D2\<lparr>Vendor := ''acme''\<rparr>]"
    by (rule trans)
  from t have two: "recommend (df_after (filter_and_recommend [acme_D1, acme_D2] 250 []
                  (Priority_Column []) week1 {} [(Some week1, Some 250)])) 250 []
         (vendor_table_after (filter_and_recommend [acme_D1, acme_D2] 250 [] (Priority_Column [])
                  week1 {} [(Some week1, Some 250)])) week2 {''D2''} [(Some week2, Some 250)]
       = recommend [acme_D1, acme_D2] 250 [] (Priority_Column []) week2 {''D2''}
           [(Some week2, Some 250)]"
    by (intro conjunct2 [OF conjunct2 [OF conjunct2 [OF t]]])
  from one two show ?thesis by (rule conjI)
qed

text \<open>
  Claim C10 as it is written fails: the Vendor column is not the same before and
  after the call.
\<close>

theorem ledger_unchanged_counterexample:
  "df_after (filter_and_recommend [acme_D1] 250 [] (Priority_Column []) week1 {}
               [(Some week1, Some 250)]) \<noteq> [acme_D1]
   \<and> Vendor (df_after (filter_and_recommend [acme_D1] 250 [] (Priority_Column []) week1 {}
               [(Some week1, Some 250)]) ! 0) = ''acme''
   \<and> Vendor ([acme_D1] ! 0) = '' Acme ''"
proof -
  have v: "Vendor (df_after (filter_and_recommend [acme_D1] 250 [] (Priority_Column []) week1 {}
               [(Some week1, Some 250)]) ! 0) = ''acme''"
    by code_simp
  have w: "Vendor ([acme_D1] ! 0) = '' Acme ''" by (simp add: acme_D1_def)
  have "df_after (filter_and_recommend [acme_D1] 250 [] (Priority_Column []) week1 {}
               [(Some week1, Some 250)]) \<noteq> [acme_D1]"
  proof
    assume "df_after (filter_and_recommend [acme_D1] 250 [] (Priority_Column []) week1 {}
               [(Some week1, Some 250)]) = [acme_D1]"
    then have "Vendor (df_after (filter_and_recommend [acme_D1] 250 [] (Priority_Column [])
                 week1 {} [(Some week1, Some 250)]) ! 0) = Vendor ([acme_D1] ! 0)"
      by (simp only:)
    with v w have "''acme'' = '' Acme ''" by (simp only:)
    then show False by simp
  qed
  with v w show ?thesis by (intro conjI)
qed

subsection \<open>The order of the vendor groups, and the priority of an unknown vendor\<close>

text \<open>
  Claim C6 does not hold of the code. The sort puts the bill of the vendor with the
  higher priority first, but \<^verbatim>\<open>groupby("Vendor")\<close> iterates over the groups in
  ascending order of the vendor name: with a weekly budget that covers one bill, the
  bill of the vendor that is first in the alphabet is paid and the bill that the sort
  put first is not.
\<close>

theorem groups_processed_in_vendor_name_order:
  "map (\<lambda>c. (Doc_Num (bill c), priority c)) (filtered_df [alpha_A1, zeta_Z1] [] zeta_first {})
     = [(''Z1'', Some 10), (''A1'', Some 1)]
   \<and> map fst (groupby_Vendor (filtered_df [alpha_A1, zeta_Z1] [] zeta_first {}))
     = [''alpha'', ''zeta'']
   \<and> map (\<lambda>r. (rec_Doc_Num r, Payment_Amount r))
       (recommend [alpha_A1, zeta_Z1] 100 [] zeta_first week1 {} [(Some week1, Some 100)])
     = [(''A1'', 100)]"
  by code_simp

text \<open>
  Claim C8 does not hold of the code. When the Vendors sheet has a priority column,
  the left join leaves the priority of a vendor that is not in the sheet missing, and
  \<^verbatim>\<open>filtered_df.get("priority", 0)\<close> returns that column as it is: the row sorts
  with a missing priority, after a vendor of priority -1. The default 0 is used
  only when the sheet has no priority column at all.
\<close>

theorem absent_vendor_priority_is_missing:
  "map (\<lambda>c. (Doc_Num (bill c), priority c)) (filtered_df [gamma_G1, beta_B1] [] beta_only {})
     = [(''B1'', Some (- 1)), (''G1'', None)]
   \<and> map (\<lambda>c. (Doc_Num (bill c), priority c))
       (filtered_df [gamma_G1, beta_B1] [] (No_Priority_Column [''Beta Supply'']) {})
     = [(''B1'', Some 0), (''G1'', Some 0)]"
  by code_simp

end
